theory Spec2Isabelle
  imports Complex_Main
begin

section \<open>Values shared by the producer and the consumer\<close>

text \<open>
  Package kafka of banking-shared-go: the producer (NewProducer, Publish, PublishBatch)
  and the consumer group handler (Start, ConsumeClaim). Everything the Go code does
  beyond returning a value is explicit here: the calls made on the sarama client, the
  zap log records, the tracing spans and the circuit breaker are fields of a state
  record that each function takes and returns.

  An \<open>error\<close> is a Go error value. \<open>LibError s\<close> is an error made by a library (sarama,
  encoding/json) whose message is \<open>s\<close>; \<open>Errorf prefix cause\<close> is
  \<open>fmt.Errorf(prefix + ": %w", cause)\<close>; the two remaining constructors are the errors
  with which the circuit breaker rejects a call.
\<close>

type_synonym time = nat \<comment> \<open>nanoseconds; \<open>time.Duration\<close> counts nanoseconds too\<close>

datatype error =
    ErrOpenState
  | ErrTooManyRequests
  | LibError string
  | Errorf string error

fun Error :: "error \<Rightarrow> string" where
  "Error ErrOpenState = ''circuit breaker is open''"
| "Error ErrTooManyRequests = ''too many requests''"
| "Error (LibError s) = s"
| "Error (Errorf prefix cause) = prefix @ '': '' @ Error cause"

fun Unwrap :: "error \<Rightarrow> error option" where
  "Unwrap (Errorf prefix cause) = Some cause"
| "Unwrap e = None"

datatype Level = DebugLevel | InfoLevel | WarnLevel | ErrorLevel

datatype Field =
    zap_String string string
  | zap_Strings string "string list"
  | zap_Int32 string int
  | zap_Int64 string int
  | zap_Error error

type_synonym Entry = "Level \<times> string \<times> Field list"

datatype KeyValue =
    attribute_String string string
  | attribute_Int string int
  | attribute_Int64 string int

datatype SpanEvent =
    SpanStart string "KeyValue list"
  | RecordError error
  | SpanEnd

section \<open>The producer\<close>

subsection \<open>Configuration\<close>

record ProducerConfig =
  Brokers :: "string list"
  ClientID :: string
  RequiredAcks :: int
  RetryMax :: int
  FlushFrequency :: time
  FlushMessages :: int
  CompressionType :: int

text \<open>
  The fields of \<open>sarama.Config\<close> that NewProducer assigns, named by their path
  (\<open>config.Producer.Retry.Max\<close> is \<open>Producer_Retry_Max\<close>).
\<close>

record Config =
  Config_ClientID :: string
  Producer_RequiredAcks :: int
  Producer_Retry_Max :: int
  Producer_Flush_Frequency :: time
  Producer_Flush_Messages :: int
  Producer_Compression :: int
  Producer_Return_Successes :: bool
  Producer_Return_Errors :: bool
  Producer_Idempotent :: bool
  Net_MaxOpenRequests :: int

definition WaitForAll :: int where
  "WaitForAll = -1"

definition CompressionGZIP :: int where
  "CompressionGZIP = 1"

definition Millisecond :: time where
  "Millisecond = 1000000"

definition Second :: time where
  "Second = 1000000000"

definition DefaultProducerConfig :: "string list \<Rightarrow> string \<Rightarrow> ProducerConfig" where
  "DefaultProducerConfig brokers clientID =
     \<lparr>Brokers = brokers, ClientID = clientID, RequiredAcks = WaitForAll, RetryMax = 5,
      FlushFrequency = 100 * Millisecond, FlushMessages = 100,
      CompressionType = CompressionGZIP\<rparr>"

subsection \<open>Messages and events\<close>

text \<open>
  An \<open>Event\<close> is an interface value: what the producer uses of it is its \<open>Key()\<close> and
  what \<open>json.Marshal\<close> returns for it (an error, or the payload).
\<close>

record Event =
  EventKey :: string
  Marshal :: "error + string"

record ProducerMessage =
  Topic :: string
  Key :: string
  Value :: string
  Headers :: "(string \<times> string) list"

type_synonym SendResult = "error + int \<times> int" \<comment> \<open>error, or partition and offset\<close>

subsection \<open>The circuit breaker\<close>

datatype State = StateClosed | StateHalfOpen | StateOpen

fun State_String :: "State \<Rightarrow> string" where
  "State_String StateClosed = ''closed''"
| "State_String StateHalfOpen = ''half-open''"
| "State_String StateOpen = ''open''"

record Counts =
  Requests :: nat
  TotalSuccesses :: nat
  TotalFailures :: nat
  ConsecutiveSuccesses :: nat
  ConsecutiveFailures :: nat

record CircuitBreaker =
  state :: State
  generation :: nat
  counts :: Counts
  expiry :: "time option" \<comment> \<open>\<open>None\<close> is the zero time\<close>

text \<open>
  The state a \<open>Producer\<close> acts on. \<open>config\<close> is the configuration its sarama producer
  was created with and \<open>sent\<close> the calls of \<open>SendMessage\<close> made on it, oldest first, each
  with what it returned; \<open>logger\<close> holds the records written, \<open>tracer\<close> the span events;
  \<open>clock\<close> counts the readings of \<open>time.Now()\<close> made so far.
\<close>

record Producer =
  config :: Config
  sent :: "(ProducerMessage \<times> SendResult) list"
  cb :: CircuitBreaker
  logger :: "Entry list"
  tracer :: "SpanEvent list"
  clock :: nat

text \<open>
  What the producer's surroundings answer: the time at the k-th reading of the clock,
  the result of the k-th call of \<open>SendMessage\<close>, the trace identifier of a span, whether
  \<open>sarama.NewSyncProducer\<close> succeeds, and the configuration \<open>sarama.NewConfig()\<close> returns.
\<close>

record Env =
  Now :: "nat \<Rightarrow> time"
  SendMessage :: "nat \<Rightarrow> ProducerMessage \<Rightarrow> SendResult"
  TraceID :: "nat \<Rightarrow> string"
  NewSyncProducer :: "string list \<Rightarrow> Config \<Rightarrow> error option"
  NewConfig :: Config

text \<open>The settings of the breaker, as the literal \<open>cbSettings\<close> of NewProducer gives them.\<close>

definition Name :: string where
  "Name = ''kafka-producer''"

definition MaxRequests :: nat where
  "MaxRequests = 3"

definition Interval :: time where
  "Interval = 10 * Second"

definition Timeout :: time where
  "Timeout = 30 * Second"

text \<open>
  \<open>ReadyToTrip\<close> divides two \<open>float64\<close> values converted from 32-bit counters. The
  quotient is modelled as a real number: for counters below \<open>2^32\<close> a quotient that is
  not \<open>3/5\<close> differs from it by more than \<open>2^-35\<close>, far more than the rounding of
  \<open>float64\<close>, so the rounded quotient compares with the rounded constant \<open>0.6\<close> as the
  exact one does with \<open>3/5\<close>. With no request the Go quotient is NaN and the comparison
  false; here it is \<open>0\<close> and the comparison false as well.
\<close>

definition ReadyToTrip :: "Counts \<Rightarrow> bool" where
  "ReadyToTrip c =
     (let failureRatio = real (TotalFailures c) / real (Requests c)
      in Requests c \<ge> 3 \<and> failureRatio \<ge> 0.6)"

definition Warn :: "string \<Rightarrow> Field list \<Rightarrow> Producer \<Rightarrow> Producer" where
  "Warn msg fs p = p\<lparr>logger := logger p @ [(WarnLevel, msg, fs)]\<rparr>"

definition Debug :: "string \<Rightarrow> Field list \<Rightarrow> Producer \<Rightarrow> Producer" where
  "Debug msg fs p = p\<lparr>logger := logger p @ [(DebugLevel, msg, fs)]\<rparr>"

definition Error_log :: "string \<Rightarrow> Field list \<Rightarrow> Producer \<Rightarrow> Producer" where
  "Error_log msg fs p = p\<lparr>logger := logger p @ [(ErrorLevel, msg, fs)]\<rparr>"

definition OnStateChange :: "string \<Rightarrow> State \<Rightarrow> State \<Rightarrow> Producer \<Rightarrow> Producer" where
  "OnStateChange name from to p =
     Warn ''Circuit breaker state change''
       [zap_String ''name'' name, zap_String ''from'' (State_String from),
        zap_String ''to'' (State_String to)] p"

text \<open>
  Modelled from the spec: the circuit breaker itself, which is the package gobreaker
  that the producer imports; its code is not under src/. Section 4.1 of the
  specification gives the three states, the counters of the evaluation window, the
  cooldown after which \<open>Open\<close> becomes \<open>HalfOpen\<close>, the probes of \<open>HalfOpen\<close> and the
  report of every transition to an observer. The numbers are those of \<open>cbSettings\<close>.
  Where section 4.1 does not say when something happens, the model follows what
  gobreaker documents for the settings the source uses:
  \<^item> \<open>ReadyToTrip\<close> "is called with a copy of Counts whenever a request fails in the
    closed state";
  \<^item> \<open>MaxRequests\<close> "is the maximum number of requests allowed to pass through when the
    CircuitBreaker is half-open", and the breaker closes when that many consecutive
    requests succeeded;
  \<^item> \<open>Interval\<close> "is the cyclic period of the closed state for the CircuitBreaker to
    clear the internal Counts";
  \<^item> \<open>Timeout\<close> "is the period of the open state, after which the state of the
    CircuitBreaker becomes half-open".
  The counters are natural numbers (gobreaker's are 32 bits wide). A request that
  panics is not modelled.
\<close>

definition counts_onRequest :: "Counts \<Rightarrow> Counts" where
  "counts_onRequest c = c\<lparr>Requests := Requests c + 1\<rparr>"

definition counts_onSuccess :: "Counts \<Rightarrow> Counts" where
  "counts_onSuccess c =
     c\<lparr>TotalSuccesses := TotalSuccesses c + 1,
       ConsecutiveSuccesses := ConsecutiveSuccesses c + 1,
       ConsecutiveFailures := 0\<rparr>"

definition counts_onFailure :: "Counts \<Rightarrow> Counts" where
  "counts_onFailure c =
     c\<lparr>TotalFailures := TotalFailures c + 1,
       ConsecutiveFailures := ConsecutiveFailures c + 1,
       ConsecutiveSuccesses := 0\<rparr>"

definition counts_clear :: Counts where
  "counts_clear =
     \<lparr>Requests = 0, TotalSuccesses = 0, TotalFailures = 0,
      ConsecutiveSuccesses = 0, ConsecutiveFailures = 0\<rparr>"

fun Before :: "time option \<Rightarrow> time \<Rightarrow> bool" where
  "Before None now = True"
| "Before (Some t) now = (t < now)"

definition toNewGeneration :: "time \<Rightarrow> CircuitBreaker \<Rightarrow> CircuitBreaker" where
  "toNewGeneration now b =
     b\<lparr>generation := generation b + 1,
       counts := counts_clear,
       expiry :=
         (case state b of
            StateClosed \<Rightarrow> if Interval = 0 then None else Some (now + Interval)
          | StateOpen \<Rightarrow> Some (now + Timeout)
          | StateHalfOpen \<Rightarrow> None)\<rparr>"

definition NewCircuitBreaker :: "time \<Rightarrow> CircuitBreaker" where
  "NewCircuitBreaker now =
     toNewGeneration now
       \<lparr>state = StateClosed, generation = 0, counts = counts_clear, expiry = None\<rparr>"

definition setState :: "State \<Rightarrow> time \<Rightarrow> Producer \<Rightarrow> Producer" where
  "setState st now p =
     (if state (cb p) = st then p
      else
        let prev = state (cb p);
            p1 = p\<lparr>cb := toNewGeneration now ((cb p)\<lparr>state := st\<rparr>)\<rparr>
        in OnStateChange Name prev st p1)"

definition currentState :: "time \<Rightarrow> Producer \<Rightarrow> Producer" where
  "currentState now p =
     (case state (cb p) of
        StateClosed \<Rightarrow>
          if expiry (cb p) \<noteq> None \<and> Before (expiry (cb p)) now
          then p\<lparr>cb := toNewGeneration now (cb p)\<rparr> else p
      | StateOpen \<Rightarrow>
          if Before (expiry (cb p)) now then setState StateHalfOpen now p else p
      | StateHalfOpen \<Rightarrow> p)"

definition time_Now :: "Env \<Rightarrow> Producer \<Rightarrow> time \<times> Producer" where
  "time_Now env p = (Now env (clock p), p\<lparr>clock := clock p + 1\<rparr>)"

definition beforeRequest :: "Env \<Rightarrow> Producer \<Rightarrow> (error + nat) \<times> Producer" where
  "beforeRequest env p =
     (let (now, p0) = time_Now env p;
          p1 = currentState now p0
      in if state (cb p1) = StateOpen then (Inl ErrOpenState, p1)
         else if state (cb p1) = StateHalfOpen \<and> Requests (counts (cb p1)) \<ge> MaxRequests
         then (Inl ErrTooManyRequests, p1)
         else (Inr (generation (cb p1)),
               p1\<lparr>cb := (cb p1)\<lparr>counts := counts_onRequest (counts (cb p1))\<rparr>\<rparr>))"

definition cb_onSuccess :: "time \<Rightarrow> Producer \<Rightarrow> Producer" where
  "cb_onSuccess now p =
     (case state (cb p) of
        StateClosed \<Rightarrow> p\<lparr>cb := (cb p)\<lparr>counts := counts_onSuccess (counts (cb p))\<rparr>\<rparr>
      | StateHalfOpen \<Rightarrow>
          (let p1 = p\<lparr>cb := (cb p)\<lparr>counts := counts_onSuccess (counts (cb p))\<rparr>\<rparr>
           in if ConsecutiveSuccesses (counts (cb p1)) \<ge> MaxRequests
              then setState StateClosed now p1 else p1)
      | StateOpen \<Rightarrow> p)"

definition cb_onFailure :: "time \<Rightarrow> Producer \<Rightarrow> Producer" where
  "cb_onFailure now p =
     (case state (cb p) of
        StateClosed \<Rightarrow>
          (let p1 = p\<lparr>cb := (cb p)\<lparr>counts := counts_onFailure (counts (cb p))\<rparr>\<rparr>
           in if ReadyToTrip (counts (cb p1)) then setState StateOpen now p1 else p1)
      | StateHalfOpen \<Rightarrow> setState StateOpen now p
      | StateOpen \<Rightarrow> p)"

definition afterRequest :: "Env \<Rightarrow> nat \<Rightarrow> bool \<Rightarrow> Producer \<Rightarrow> Producer" where
  "afterRequest env before success p =
     (let (now, p0) = time_Now env p;
          p1 = currentState now p0
      in if generation (cb p1) \<noteq> before then p1
         else if success then cb_onSuccess now p1 else cb_onFailure now p1)"

fun isSuccessful :: "error + 'a \<Rightarrow> bool" where
  "isSuccessful (Inl err) = False"
| "isSuccessful (Inr v) = True"

definition Execute ::
  "Env \<Rightarrow> (Producer \<Rightarrow> (error + unit) \<times> Producer) \<Rightarrow> Producer
     \<Rightarrow> (error + unit) \<times> Producer" where
  "Execute env req p =
     (case beforeRequest env p of
        (Inl err, p1) \<Rightarrow> (Inl err, p1)
      | (Inr gen, p1) \<Rightarrow>
          (let (result, p2) = req p1
           in (result, afterRequest env gen (isSuccessful result) p2)))"

subsection \<open>NewProducer\<close>

definition NewProducer_config :: "Config \<Rightarrow> ProducerConfig \<Rightarrow> Config" where
  "NewProducer_config new cfg =
     new\<lparr>Config_ClientID := ClientID cfg,
         Producer_RequiredAcks := RequiredAcks cfg,
         Producer_Retry_Max := RetryMax cfg,
         Producer_Flush_Frequency := FlushFrequency cfg,
         Producer_Flush_Messages := FlushMessages cfg,
         Producer_Compression := CompressionType cfg,
         Producer_Return_Successes := True,
         Producer_Return_Errors := True,
         Producer_Idempotent := True,
         Net_MaxOpenRequests := 1\<rparr>"

definition NewProducer :: "Env \<Rightarrow> ProducerConfig \<Rightarrow> error + Producer" where
  "NewProducer env cfg =
     (let conf = NewProducer_config (NewConfig env) cfg
      in case NewSyncProducer env (Brokers cfg) conf of
           Some err \<Rightarrow> Inl (Errorf ''failed to create kafka producer'' err)
         | None \<Rightarrow>
             Inr \<lparr>config = conf, sent = [], cb = NewCircuitBreaker (Now env 0),
                  logger = [], tracer = [], clock = 1\<rparr>)"

subsection \<open>Publish and PublishBatch\<close>

text \<open>
  The context argument of Publish and PublishBatch only carries the parent span; it is
  left out. A span is known by the events recorded for it, and its trace identifier is
  what the surroundings answer for the number of span events recorded so far.
\<close>

definition tracer_Start :: "string \<Rightarrow> KeyValue list \<Rightarrow> Producer \<Rightarrow> Producer" where
  "tracer_Start name attrs p = p\<lparr>tracer := tracer p @ [SpanStart name attrs]\<rparr>"

definition span_RecordError :: "error \<Rightarrow> Producer \<Rightarrow> Producer" where
  "span_RecordError err p = p\<lparr>tracer := tracer p @ [RecordError err]\<rparr>"

definition span_End :: "Producer \<Rightarrow> Producer" where
  "span_End p = p\<lparr>tracer := tracer p @ [SpanEnd]\<rparr>"

definition message :: "Env \<Rightarrow> string \<Rightarrow> Event \<Rightarrow> string \<Rightarrow> Producer \<Rightarrow> ProducerMessage" where
  "message env topic event payload p =
     \<lparr>Topic = topic, Key = EventKey event, Value = payload,
      Headers = [(''content-type'', ''application/json''),
                 (''trace-id'', TraceID env (length (tracer p)))]\<rparr>"

text \<open>The closure that Publish hands to the breaker.\<close>

definition send :: "Env \<Rightarrow> string \<Rightarrow> ProducerMessage \<Rightarrow> Producer \<Rightarrow> (error + unit) \<times> Producer" where
  "send env topic msg p =
     (let r = SendMessage env (length (sent p)) msg;
          p1 = p\<lparr>sent := sent p @ [(msg, r)]\<rparr>
      in case r of
           Inl err \<Rightarrow> (Inl err, p1)
         | Inr (part, off) \<Rightarrow>
             (Inr (),
              Debug ''Message sent''
                [zap_String ''topic'' topic, zap_Int32 ''partition'' part,
                 zap_Int64 ''offset'' off] p1))"

definition Publish :: "Env \<Rightarrow> string \<Rightarrow> Event \<Rightarrow> Producer \<Rightarrow> error option \<times> Producer" where
  "Publish env topic event p =
     (let p0 = tracer_Start ''kafka.publish'' [attribute_String ''kafka.topic'' topic] p
      in case Marshal event of
           Inl err \<Rightarrow>
             (Some (Errorf ''failed to marshal event'' err),
              span_End (span_RecordError err p0))
         | Inr payload \<Rightarrow>
             (let msg = message env topic event payload p;
                  (r, p1) = Execute env (send env topic msg) p0
              in case r of
                   Inl err \<Rightarrow>
                     (Some (Errorf (''failed to publish to '' @ topic) err),
                      span_End
                        (Error_log ''Failed to publish message''
                           [zap_String ''topic'' topic, zap_Error err]
                           (span_RecordError err p1)))
                 | Inr u \<Rightarrow> (None, span_End p1)))"

fun PublishBatch_loop ::
  "Env \<Rightarrow> string \<Rightarrow> Event list \<Rightarrow> Producer \<Rightarrow> error option \<times> Producer" where
  "PublishBatch_loop env topic [] p = (None, p)"
| "PublishBatch_loop env topic (event # events) p =
     (case Publish env topic event p of
        (Some err, p1) \<Rightarrow> (Some err, p1)
      | (None, p1) \<Rightarrow> PublishBatch_loop env topic events p1)"

definition PublishBatch ::
  "Env \<Rightarrow> string \<Rightarrow> Event list \<Rightarrow> Producer \<Rightarrow> error option \<times> Producer" where
  "PublishBatch env topic events p =
     (let p0 = tracer_Start ''kafka.publish_batch''
                 [attribute_String ''kafka.topic'' topic,
                  attribute_Int ''batch_size'' (int (length events))] p;
          (r, p1) = PublishBatch_loop env topic events p0
      in (r, span_End p1))"

definition IsHealthy :: "Producer \<Rightarrow> bool" where
  "IsHealthy p = (state (cb p) = StateClosed)"

section \<open>The consumer\<close>

record ConsumerMessage =
  msg_Topic :: string
  msg_Partition :: int
  msg_Offset :: int
  msg_Value :: string

text \<open>
  The state a \<open>Consumer\<close> acts on. \<open>handler_state\<close> is whatever the registered handler
  keeps between calls. The channel held in the field \<open>ready\<close> is known by a number:
  \<open>made\<close> channels exist and those of \<open>closed\<close> have been closed. \<open>consumes\<close> counts the
  calls of \<open>client.Consume\<close>. \<open>offsets\<close> is what the session has been told by
  \<open>MarkMessage\<close>.
\<close>

record 'h Consumer =
  handler_state :: 'h
  topics :: "string list"
  c_logger :: "Entry list"
  c_tracer :: "SpanEvent list"
  ready :: nat
  made :: nat
  closed :: "nat list"
  consumes :: nat
  offsets :: "string \<times> int \<Rightarrow> int option"

type_synonym 'h MessageHandler = "'h \<Rightarrow> ConsumerMessage \<Rightarrow> error option \<times> 'h"

definition c_Error :: "string \<Rightarrow> Field list \<Rightarrow> 'h Consumer \<Rightarrow> 'h Consumer" where
  "c_Error msg fs c = c\<lparr>c_logger := c_logger c @ [(ErrorLevel, msg, fs)]\<rparr>"

definition c_Info :: "string \<Rightarrow> Field list \<Rightarrow> 'h Consumer \<Rightarrow> 'h Consumer" where
  "c_Info msg fs c = c\<lparr>c_logger := c_logger c @ [(InfoLevel, msg, fs)]\<rparr>"

definition c_tracer_Start :: "string \<Rightarrow> KeyValue list \<Rightarrow> 'h Consumer \<Rightarrow> 'h Consumer" where
  "c_tracer_Start name attrs c = c\<lparr>c_tracer := c_tracer c @ [SpanStart name attrs]\<rparr>"

definition c_span_RecordError :: "error \<Rightarrow> 'h Consumer \<Rightarrow> 'h Consumer" where
  "c_span_RecordError err c = c\<lparr>c_tracer := c_tracer c @ [RecordError err]\<rparr>"

definition c_span_End :: "'h Consumer \<Rightarrow> 'h Consumer" where
  "c_span_End c = c\<lparr>c_tracer := c_tracer c @ [SpanEnd]\<rparr>"

subsection \<open>ConsumeClaim\<close>

text \<open>
  Modelled from the spec: \<open>session.MarkMessage\<close>, a method of sarama's session whose
  code is not under src/. Section 4.4 has it "mark the message as processed,
  advancing the committed offset for that partition", and the glossary has the
  committed offset be one position per partition, "used to resume after
  restart/rebalance". As in sarama the position kept is that of the next message to
  read, \<open>msg.Offset + 1\<close>, and a mark never moves a position backwards. So
  \<open>offsets c (t, n) = Some k\<close> says that consumption of partition \<open>n\<close> of topic \<open>t\<close>
  resumes at offset \<open>k\<close>: every message below \<open>k\<close> counts as processed.
\<close>

definition MarkMessage :: "ConsumerMessage \<Rightarrow> 'h Consumer \<Rightarrow> 'h Consumer" where
  "MarkMessage msg c =
     (let tp = (msg_Topic msg, msg_Partition msg)
      in c\<lparr>offsets := (offsets c)
            (tp \<mapsto> (case offsets c tp of
                       None \<Rightarrow> msg_Offset msg + 1
                     | Some k \<Rightarrow> max k (msg_Offset msg + 1)))\<rparr>)"

text \<open>
  One element of the list is what one \<open>select\<close> of the loop receives: a message of the
  claim, the closing of the claim's channel, or the end of the session's context.
  When both channels are ready Go chooses either; the list says which. The empty
  list is a \<open>select\<close> that receives nothing any more: the loop waits for ever, and the
  result is \<open>None\<close>. A result \<open>Some r\<close> is the loop returning \<open>r\<close>, where \<open>r = None\<close>
  is Go's \<open>nil\<close>. The handler is a function: a call of it returns.
\<close>

datatype select = Message ConsumerMessage | MessagesClosed | ContextDone

fun ConsumeClaim ::
  "'h MessageHandler \<Rightarrow> select list \<Rightarrow> 'h Consumer \<Rightarrow> error option option \<times> 'h Consumer" where
  "ConsumeClaim handler [] c = (None, c)"
| "ConsumeClaim handler (MessagesClosed # sel) c = (Some None, c)"
| "ConsumeClaim handler (ContextDone # sel) c = (Some None, c)"
| "ConsumeClaim handler (Message m # sel) c =
     (let c0 = c_tracer_Start ''kafka.consume''
                 [attribute_String ''kafka.topic'' (msg_Topic m),
                  attribute_Int64 ''kafka.partition'' (msg_Partition m),
                  attribute_Int64 ''kafka.offset'' (msg_Offset m)] c;
          (r, h) = handler (handler_state c0) m;
          c1 = c0\<lparr>handler_state := h\<rparr>
      in case r of
           Some err \<Rightarrow>
             ConsumeClaim handler sel
               (c_span_End
                  (c_Error ''Failed to process message''
                     [zap_String ''topic'' (msg_Topic m),
                      zap_Int32 ''partition'' (msg_Partition m),
                      zap_Int64 ''offset'' (msg_Offset m), zap_Error err]
                     (c_span_RecordError err c1)))
         | None \<Rightarrow> ConsumeClaim handler sel (c_span_End (MarkMessage m c1)))"

subsection \<open>Start\<close>

text \<open>
  \<open>Start\<close> runs the supervising loop on a goroutine of its own and waits for the channel
  \<open>c.ready\<close>. The model runs the loop against a list of what the successive calls of
  \<open>client.Consume\<close> do, and then asks whether the channel \<open>Start\<close> waits for was closed:
  \<^item> \<open>Returns joined err cancelled\<close>: the call joined the group (so that sarama ran
    \<open>Setup\<close>) or not, returned \<open>err\<close>, and \<open>ctx.Err()\<close> was non-nil afterwards or not;
  \<^item> \<open>Hangs joined\<close>: the call never returns;
  \<^item> the empty list: one more call is made, which neither joins nor returns.
  \<open>Start\<close> reads the field \<open>c.ready\<close> once, for its receive; the model takes it that
  this happens before the loop replaces the channel. The result of \<open>Start\<close> is \<open>None\<close>
  when it waits for ever.
\<close>

datatype Consume = Returns bool "error option" bool | Hangs bool

definition Setup :: "'h Consumer \<Rightarrow> 'h Consumer" where
  "Setup c = c\<lparr>closed := ready c # closed c\<rparr>"

definition make_ready :: "'h Consumer \<Rightarrow> 'h Consumer" where
  "make_ready c = c\<lparr>ready := made c, made := made c + 1\<rparr>"

fun supervise :: "Consume list \<Rightarrow> 'h Consumer \<Rightarrow> 'h Consumer" where
  "supervise [] c = c\<lparr>consumes := consumes c + 1\<rparr>"
| "supervise (Hangs joined # calls) c =
     (let c0 = c\<lparr>consumes := consumes c + 1\<rparr>
      in if joined then Setup c0 else c0)"
| "supervise (Returns joined err cancelled # calls) c =
     (let c0 = c\<lparr>consumes := consumes c + 1\<rparr>;
          c1 = (if joined then Setup c0 else c0);
          c2 = (case err of
                  Some e \<Rightarrow> c_Error ''Consumer error'' [zap_Error e] c1
                | None \<Rightarrow> c1)
      in if cancelled then c2 else supervise calls (make_ready c2))"

definition Start :: "Consume list \<Rightarrow> 'h Consumer \<Rightarrow> error option option \<times> 'h Consumer" where
  "Start calls c =
     (let waited = ready c;
          c1 = supervise calls c
      in if waited \<in> set (closed c1)
         then (Some None, c_Info ''Consumer started'' [zap_Strings ''topics'' (topics c1)] c1)
         else (None, c1))"

section \<open>Sequences of calls\<close>

text \<open>
  A caller that publishes one event after the other, whatever each call returns, and
  keeps the results.
\<close>

fun Publish_each :: "Env \<Rightarrow> string \<Rightarrow> Event list \<Rightarrow> Producer \<Rightarrow> error option list \<times> Producer" where
  "Publish_each env topic [] p = ([], p)"
| "Publish_each env topic (ev # evs) p =
     (let (r, p1) = Publish env topic ev p;
          (rs, p2) = Publish_each env topic evs p1
      in (r # rs, p2))"

text \<open>The number of calls that returned an error.\<close>

definition failures :: "error option list \<Rightarrow> nat" where
  "failures rs = length (filter (\<lambda>r. r \<noteq> None) rs)"

text \<open>
  What one call of \<open>SendMessage\<close> carried (topic, key, payload) and whether it was
  acknowledged.
\<close>

definition summary :: "ProducerMessage \<times> SendResult \<Rightarrow> string \<times> string \<times> (error + string) \<times> bool" where
  "summary e = (Topic (fst e), Key (fst e), Inr (Value (fst e)), isSuccessful (snd e))"

text \<open>A request that leaves the breaker and the clock alone, as the closure of Publish does.\<close>

definition quiet :: "(Producer \<Rightarrow> (error + unit) \<times> Producer) \<Rightarrow> bool" where
  "quiet req = (\<forall>q. cb (snd (req q)) = cb q \<and> clock (snd (req q)) = clock q)"

section \<open>Concrete surroundings for the examples\<close>

text \<open>
  A broker that acknowledges the k-th call of \<open>SendMessage\<close> when \<open>up k\<close> holds and
  refuses it otherwise, with a clock that reads \<open>clk k\<close> at its k-th reading.
\<close>

definition example_env :: "(nat \<Rightarrow> time) \<Rightarrow> (nat \<Rightarrow> bool) \<Rightarrow> Env" where
  "example_env clk up =
     \<lparr>Now = clk,
      SendMessage =
        (\<lambda>k msg. if up k then Inr (0, int k)
                  else Inl (LibError ''kafka: broker not available'')),
      TraceID = (\<lambda>k. ''4bf92f3577b34da6''),
      NewSyncProducer = (\<lambda>brokers conf. None),
      NewConfig =
        \<lparr>Config_ClientID = ''sarama'', Producer_RequiredAcks = 1, Producer_Retry_Max = 3,
         Producer_Flush_Frequency = 0, Producer_Flush_Messages = 0,
         Producer_Compression = 0, Producer_Return_Successes = False,
         Producer_Return_Errors = True, Producer_Idempotent = False,
         Net_MaxOpenRequests = 5\<rparr>\<rparr>"

definition example_event :: Event where
  "example_event = \<lparr>EventKey = ''123'', Marshal = Inr ''{}''\<rparr>"

definition unserializable_event :: Event where
  "unserializable_event =
     \<lparr>EventKey = ''123'', Marshal = Inl (LibError ''json: unsupported type: chan int'')\<rparr>"

text \<open>The producer that NewProducer makes at time 0 from the default configuration.\<close>

definition example_producer :: Producer where
  "example_producer =
     \<lparr>config = NewProducer_config (NewConfig (example_env (\<lambda>k. 0) (\<lambda>k. True)))
                 (DefaultProducerConfig [''localhost:9092''] ''payments''),
      sent = [], cb = NewCircuitBreaker 0, logger = [], tracer = [], clock = 1\<rparr>"

definition example_consumer :: "unit Consumer" where
  "example_consumer =
     \<lparr>handler_state = (), topics = [''payments''], c_logger = [], c_tracer = [],
      ready = 0, made = 1, closed = [], consumes = 0, offsets = Map.empty\<rparr>"

definition example_message :: "int \<Rightarrow> ConsumerMessage" where
  "example_message off =
     \<lparr>msg_Topic = ''payments'', msg_Partition = 0, msg_Offset = off, msg_Value = ''{}''\<rparr>"

text \<open>A handler that fails on the message at offset \<open>n\<close> and on no other.\<close>

definition fails_at :: "int \<Rightarrow> unit MessageHandler" where
  "fails_at n h m =
     (if msg_Offset m = n then Some (LibError ''insufficient funds'') else None, h)"

text \<open>The error Publish returns when such a broker refuses a message for topic payments.\<close>

definition broker_down :: error where
  "broker_down = Errorf ''failed to publish to payments'' (LibError ''kafka: broker not available'')"

text \<open>
  The scenario of the specification: the broker acknowledges two messages and refuses
  the following ones, all within the first window of the breaker.
\<close>

definition after_scenario :: Producer where
  "after_scenario =
     snd (Publish_each (example_env (\<lambda>k. 0) (\<lambda>k. k < 2)) ''payments''
            [example_event, example_event, example_event, example_event, example_event]
            example_producer)"

text \<open>
  A broker that refuses three messages and acknowledges the later ones, with a clock
  that stands at 0 for the first three calls and at 31 seconds afterwards.
\<close>

definition recovering_env :: Env where
  "recovering_env = example_env (\<lambda>k. if k < 7 then 0 else 31 * Second) (\<lambda>k. 3 \<le> k)"

definition tripped_producer :: Producer where
  "tripped_producer =
     snd (Publish_each recovering_env ''payments''
            [example_event, example_event, example_event] example_producer)"

definition probed_producer :: Producer where
  "probed_producer =
     snd (Publish_each recovering_env ''payments'' [example_event, example_event]
            tripped_producer)"

text \<open>
  A broker that acknowledges three messages and refuses the later ones, all at time 0,
  and the producer after the three acknowledged messages: its window is under way.
\<close>

definition warming_env :: Env where
  "warming_env = example_env (\<lambda>k. 0) (\<lambda>k. k < 3)"

definition warm_producer :: Producer where
  "warm_producer =
     snd (Publish_each warming_env ''payments''
            [example_event, example_event, example_event] example_producer)"

text \<open>The same with a single acknowledged message.\<close>

definition once_env :: Env where
  "once_env = example_env (\<lambda>k. 0) (\<lambda>k. k < 1)"

definition once_producer :: Producer where
  "once_producer = snd (Publish once_env ''payments'' example_event example_producer)"

text \<open>Surroundings in which \<open>sarama.NewSyncProducer\<close> fails.\<close>

definition no_broker_env :: Env where
  "no_broker_env =
     (example_env (\<lambda>k. 0) (\<lambda>k. True))
       \<lparr>NewSyncProducer :=
          (\<lambda>brokers conf.
             Some (LibError ''kafka: client has run out of available brokers to talk to''))\<rparr>"

section \<open>What the breaker leaves alone\<close>

lemma setState_frame [simp]:
  "sent (setState st now p) = sent p"
  "clock (setState st now p) = clock p"
  "tracer (setState st now p) = tracer p"
  "config (setState st now p) = config p"
  by (simp_all add: setState_def OnStateChange_def Warn_def Let_def)

lemma currentState_frame [simp]:
  "sent (currentState now p) = sent p"
  "clock (currentState now p) = clock p"
  "tracer (currentState now p) = tracer p"
  "config (currentState now p) = config p"
  by (simp_all add: currentState_def split: State.splits)

lemma beforeRequest_frame [simp]:
  "sent (snd (beforeRequest env p)) = sent p"
  "clock (snd (beforeRequest env p)) = clock p + 1"
  "tracer (snd (beforeRequest env p)) = tracer p"
  "config (snd (beforeRequest env p)) = config p"
  by (simp_all add: beforeRequest_def time_Now_def Let_def)

lemma cb_onSuccess_frame [simp]:
  "sent (cb_onSuccess now p) = sent p"
  "clock (cb_onSuccess now p) = clock p"
  "tracer (cb_onSuccess now p) = tracer p"
  "config (cb_onSuccess now p) = config p"
  by (simp_all add: cb_onSuccess_def Let_def split: State.splits)

lemma cb_onFailure_frame [simp]:
  "sent (cb_onFailure now p) = sent p"
  "clock (cb_onFailure now p) = clock p"
  "tracer (cb_onFailure now p) = tracer p"
  "config (cb_onFailure now p) = config p"
  by (simp_all add: cb_onFailure_def Let_def split: State.splits)

lemma afterRequest_frame [simp]:
  "sent (afterRequest env gen ok p) = sent p"
  "clock (afterRequest env gen ok p) = clock p + 1"
  "tracer (afterRequest env gen ok p) = tracer p"
  "config (afterRequest env gen ok p) = config p"
  by (simp_all add: afterRequest_def time_Now_def Let_def)

lemma tracer_Start_frame [simp]:
  "cb (tracer_Start name attrs p) = cb p"
  "clock (tracer_Start name attrs p) = clock p"
  "sent (tracer_Start name attrs p) = sent p"
  by (simp_all add: tracer_Start_def)

section \<open>One call through the breaker\<close>

lemma ReadyToTrip_iff:
  "ReadyToTrip c = (3 \<le> Requests c \<and> 3 * Requests c \<le> 5 * TotalFailures c)"
proof (cases "Requests c = 0")
  case True
  then show ?thesis by (simp add: ReadyToTrip_def)
next
  case False
  then have pos: "0 < real (Requests c)" by simp
  have "(6 / 10 \<le> real (TotalFailures c) / real (Requests c)) =
        (3 * real (Requests c) \<le> 5 * real (TotalFailures c))"
    using pos by (simp add: field_simps)
  also have "\<dots> = (3 * Requests c \<le> 5 * TotalFailures c)"
    by (metis of_nat_le_iff of_nat_mult of_nat_numeral)
  finally show ?thesis by (simp add: ReadyToTrip_def Let_def)
qed

lemma serializable:
  "\<not> isl (Marshal ev) \<Longrightarrow> Marshal ev = Inr (projr (Marshal ev))"
  by (cases "Marshal ev") simp_all

lemma beforeRequest_closed:
  assumes "state (cb p) = StateClosed" "expiry (cb p) = Some e" "Now env (clock p) \<le> e"
  shows "fst (beforeRequest env p) = Inr (generation (cb p))"
    and "cb (snd (beforeRequest env p)) = (cb p)\<lparr>counts := counts_onRequest (counts (cb p))\<rparr>"
  using assms
  by (simp_all add: beforeRequest_def time_Now_def currentState_def Let_def)

lemma afterRequest_closed:
  assumes "state (cb p) = StateClosed" "expiry (cb p) = Some e" "Now env (clock p) \<le> e"
  shows "cb (afterRequest env (generation (cb p)) ok p) =
     (if ok then (cb p)\<lparr>counts := counts_onSuccess (counts (cb p))\<rparr>
      else if ReadyToTrip (counts_onFailure (counts (cb p)))
      then \<lparr>state = StateOpen, generation = generation (cb p) + 1, counts = counts_clear,
            expiry = Some (Now env (clock p) + Timeout)\<rparr>
      else (cb p)\<lparr>counts := counts_onFailure (counts (cb p))\<rparr>)"
  using assms
  by (simp add: afterRequest_def time_Now_def currentState_def Let_def cb_onSuccess_def
      cb_onFailure_def setState_def toNewGeneration_def OnStateChange_def Warn_def)

lemma Execute_admitted:
  assumes "fst (beforeRequest env p) = Inr gen"
  shows "Execute env req p =
      (fst (req (snd (beforeRequest env p))),
       afterRequest env gen (isSuccessful (fst (req (snd (beforeRequest env p)))))
         (snd (req (snd (beforeRequest env p)))))"
  using assms by (cases "beforeRequest env p") (simp add: Execute_def case_prod_beta)

lemma Execute_closed:
  assumes "quiet req"
    and "state (cb p) = StateClosed" "expiry (cb p) = Some e"
    and "Now env (clock p) \<le> e" "Now env (clock p + 1) \<le> e"
  shows "fst (Execute env req p) = fst (req (snd (beforeRequest env p)))"
    and "clock (snd (Execute env req p)) = clock p + 2"
    and "cb (snd (Execute env req p)) =
     (let c = counts_onRequest (counts (cb p)) in
      if isSuccessful (fst (req (snd (beforeRequest env p))))
      then (cb p)\<lparr>counts := counts_onSuccess c\<rparr>
      else if ReadyToTrip (counts_onFailure c)
      then \<lparr>state = StateOpen, generation = generation (cb p) + 1, counts = counts_clear,
            expiry = Some (Now env (clock p + 1) + Timeout)\<rparr>
      else (cb p)\<lparr>counts := counts_onFailure c\<rparr>)"
proof -
  let ?p1 = "snd (beforeRequest env p)"
  let ?p2 = "snd (req ?p1)"
  have b1: "fst (beforeRequest env p) = Inr (generation (cb p))"
    and b2: "cb ?p1 = (cb p)\<lparr>counts := counts_onRequest (counts (cb p))\<rparr>"
    using beforeRequest_closed [OF assms(2,3,4)] by simp_all
  have q: "cb ?p2 = cb ?p1" "clock ?p2 = clock p + 1"
    using assms(1) by (simp_all add: quiet_def)
  have ex: "Execute env req p =
      (fst (req ?p1), afterRequest env (generation (cb p)) (isSuccessful (fst (req ?p1))) ?p2)"
    using b1 by (cases "beforeRequest env p") (simp add: Execute_def case_prod_beta)
  show "fst (Execute env req p) = fst (req ?p1)" by (simp add: ex)
  show "clock (snd (Execute env req p)) = clock p + 2" by (simp add: ex q)
  have g: "generation (cb ?p2) = generation (cb p)" by (simp add: q b2)
  have "state (cb ?p2) = StateClosed" "expiry (cb ?p2) = Some e" "Now env (clock ?p2) \<le> e"
    using assms by (simp_all add: q b2)
  from afterRequest_closed [OF this, of "isSuccessful (fst (req ?p1))"]
  show "cb (snd (Execute env req p)) =
     (let c = counts_onRequest (counts (cb p)) in
      if isSuccessful (fst (req (snd (beforeRequest env p))))
      then (cb p)\<lparr>counts := counts_onSuccess c\<rparr>
      else if ReadyToTrip (counts_onFailure c)
      then \<lparr>state = StateOpen, generation = generation (cb p) + 1, counts = counts_clear,
            expiry = Some (Now env (clock p + 1) + Timeout)\<rparr>
      else (cb p)\<lparr>counts := counts_onFailure c\<rparr>)"
    unfolding ex g by (simp add: q b2 Let_def)
qed

lemma Execute_open:
  assumes "state (cb p) = StateOpen" "expiry (cb p) = Some e" "Now env (clock p) \<le> e"
  shows "Execute env req p = (Inl ErrOpenState, p\<lparr>clock := clock p + 1\<rparr>)"
  using assms
  by (simp add: Execute_def beforeRequest_def time_Now_def currentState_def Let_def)

lemma beforeRequest_cooled:
  assumes "state (cb p) = StateOpen" "expiry (cb p) = Some e" "e < Now env (clock p)"
  shows "fst (beforeRequest env p) = Inr (generation (cb p) + 1)"
    and "cb (snd (beforeRequest env p)) =
           \<lparr>state = StateHalfOpen, generation = generation (cb p) + 1,
            counts = counts_onRequest counts_clear, expiry = None\<rparr>"
  using assms
  by (simp_all add: beforeRequest_def time_Now_def currentState_def Let_def setState_def
      toNewGeneration_def OnStateChange_def Warn_def MaxRequests_def counts_clear_def)

lemma beforeRequest_halfopen:
  assumes "state (cb p) = StateHalfOpen" "Requests (counts (cb p)) < MaxRequests"
  shows "fst (beforeRequest env p) = Inr (generation (cb p))"
    and "cb (snd (beforeRequest env p)) = (cb p)\<lparr>counts := counts_onRequest (counts (cb p))\<rparr>"
  using assms
  by (simp_all add: beforeRequest_def time_Now_def currentState_def Let_def)

lemma afterRequest_halfopen:
  assumes "state (cb p) = StateHalfOpen"
  shows "cb (afterRequest env (generation (cb p)) ok p) =
     (if ok
      then if MaxRequests \<le> ConsecutiveSuccesses (counts (cb p)) + 1
           then \<lparr>state = StateClosed, generation = generation (cb p) + 1,
                 counts = counts_clear, expiry = Some (Now env (clock p) + Interval)\<rparr>
           else (cb p)\<lparr>counts := counts_onSuccess (counts (cb p))\<rparr>
      else \<lparr>state = StateOpen, generation = generation (cb p) + 1, counts = counts_clear,
            expiry = Some (Now env (clock p) + Timeout)\<rparr>)"
  using assms
  by (simp add: afterRequest_def time_Now_def currentState_def Let_def cb_onSuccess_def
      cb_onFailure_def setState_def toNewGeneration_def OnStateChange_def Warn_def
      counts_onSuccess_def Interval_def Second_def)

lemma Execute_halfopen:
  assumes "quiet req"
    and "state (cb p) = StateHalfOpen" "Requests (counts (cb p)) < MaxRequests"
  shows "fst (Execute env req p) = fst (req (snd (beforeRequest env p)))"
    and "clock (snd (Execute env req p)) = clock p + 2"
    and "cb (snd (Execute env req p)) =
     (if isSuccessful (fst (req (snd (beforeRequest env p))))
      then if MaxRequests \<le> ConsecutiveSuccesses (counts (cb p)) + 1
           then \<lparr>state = StateClosed, generation = generation (cb p) + 1,
                 counts = counts_clear, expiry = Some (Now env (clock p + 1) + Interval)\<rparr>
           else (cb p)\<lparr>counts := counts_onSuccess (counts_onRequest (counts (cb p)))\<rparr>
      else \<lparr>state = StateOpen, generation = generation (cb p) + 1, counts = counts_clear,
            expiry = Some (Now env (clock p + 1) + Timeout)\<rparr>)"
proof -
  let ?p1 = "snd (beforeRequest env p)"
  let ?p2 = "snd (req ?p1)"
  note b = beforeRequest_halfopen [OF assms(2,3), of env]
  have q: "cb ?p2 = cb ?p1" "clock ?p2 = clock p + 1"
    using assms(1) by (simp_all add: quiet_def)
  note ex = Execute_admitted [OF b(1), of req]
  show "fst (Execute env req p) = fst (req ?p1)" by (simp add: ex)
  show "clock (snd (Execute env req p)) = clock p + 2" by (simp add: ex q)
  have g: "generation (cb ?p2) = generation (cb p)" by (simp add: q b)
  have "state (cb ?p2) = StateHalfOpen" using assms by (simp add: q b)
  from afterRequest_halfopen [OF this, of env "isSuccessful (fst (req ?p1))"]
  show "cb (snd (Execute env req p)) =
     (if isSuccessful (fst (req (snd (beforeRequest env p))))
      then if MaxRequests \<le> ConsecutiveSuccesses (counts (cb p)) + 1
           then \<lparr>state = StateClosed, generation = generation (cb p) + 1,
                 counts = counts_clear, expiry = Some (Now env (clock p + 1) + Interval)\<rparr>
           else (cb p)\<lparr>counts := counts_onSuccess (counts_onRequest (counts (cb p)))\<rparr>
      else \<lparr>state = StateOpen, generation = generation (cb p) + 1, counts = counts_clear,
            expiry = Some (Now env (clock p + 1) + Timeout)\<rparr>)"
    unfolding ex g by (simp add: q b counts_onRequest_def)
qed

lemma Execute_cooled:
  assumes "quiet req"
    and "state (cb p) = StateOpen" "expiry (cb p) = Some e" "e < Now env (clock p)"
  shows "fst (Execute env req p) = fst (req (snd (beforeRequest env p)))"
    and "clock (snd (Execute env req p)) = clock p + 2"
    and "cb (snd (Execute env req p)) =
     (if isSuccessful (fst (req (snd (beforeRequest env p))))
      then \<lparr>state = StateHalfOpen, generation = generation (cb p) + 1,
            counts = counts_onSuccess (counts_onRequest counts_clear), expiry = None\<rparr>
      else \<lparr>state = StateOpen, generation = generation (cb p) + 2, counts = counts_clear,
            expiry = Some (Now env (clock p + 1) + Timeout)\<rparr>)"
proof -
  let ?p1 = "snd (beforeRequest env p)"
  let ?p2 = "snd (req ?p1)"
  note b = beforeRequest_cooled [OF assms(2,3,4)]
  have q: "cb ?p2 = cb ?p1" "clock ?p2 = clock p + 1"
    using assms(1) by (simp_all add: quiet_def)
  note ex = Execute_admitted [OF b(1), of req]
  show "fst (Execute env req p) = fst (req ?p1)" by (simp add: ex)
  show "clock (snd (Execute env req p)) = clock p + 2" by (simp add: ex q)
  have g: "generation (cb p) + 1 = generation (cb ?p2)" by (simp add: q b)
  have "state (cb ?p2) = StateHalfOpen" by (simp add: q b)
  from afterRequest_halfopen [OF this, of env "isSuccessful (fst (req ?p1))"]
  show "cb (snd (Execute env req p)) =
     (if isSuccessful (fst (req (snd (beforeRequest env p))))
      then \<lparr>state = StateHalfOpen, generation = generation (cb p) + 1,
            counts = counts_onSuccess (counts_onRequest counts_clear), expiry = None\<rparr>
      else \<lparr>state = StateOpen, generation = generation (cb p) + 2, counts = counts_clear,
            expiry = Some (Now env (clock p + 1) + Timeout)\<rparr>)"
    unfolding ex g
    by (simp add: q b counts_onRequest_def counts_clear_def MaxRequests_def)
qed

section \<open>One call of Publish\<close>

lemma quiet_send: "quiet (send env topic msg)"
  by (simp add: quiet_def send_def Let_def Debug_def split: sum.splits prod.splits)

lemma send_result:
  "isSuccessful (fst (send env topic msg q)) =
     isSuccessful (SendMessage env (length (sent q)) msg)"
  "fst (send env topic msg q) =
     (case SendMessage env (length (sent q)) msg of Inl err \<Rightarrow> Inl err | Inr x \<Rightarrow> Inr ())"
  "sent (snd (send env topic msg q)) = sent q @ [(msg, SendMessage env (length (sent q)) msg)]"
  by (simp_all add: send_def Let_def Debug_def split: sum.splits prod.splits)

lemma Publish_Execute:
  assumes "Marshal ev = Inr payload"
  shows "fst (Publish env topic ev p) =
      (case fst (Execute env (send env topic (message env topic ev payload p))
                   (tracer_Start ''kafka.publish'' [attribute_String ''kafka.topic'' topic] p)) of
         Inl err \<Rightarrow> Some (Errorf (''failed to publish to '' @ topic) err)
       | Inr u \<Rightarrow> None)"
    and "cb (snd (Publish env topic ev p)) =
      cb (snd (Execute env (send env topic (message env topic ev payload p))
                   (tracer_Start ''kafka.publish'' [attribute_String ''kafka.topic'' topic] p)))"
    and "clock (snd (Publish env topic ev p)) =
      clock (snd (Execute env (send env topic (message env topic ev payload p))
                   (tracer_Start ''kafka.publish'' [attribute_String ''kafka.topic'' topic] p)))"
    and "sent (snd (Publish env topic ev p)) =
      sent (snd (Execute env (send env topic (message env topic ev payload p))
                   (tracer_Start ''kafka.publish'' [attribute_String ''kafka.topic'' topic] p)))"
  using assms
  by (simp_all add: Publish_def Let_def case_prod_beta span_End_def Error_log_def
      span_RecordError_def split: sum.splits)

lemma Publish_admitted:
  assumes "Marshal ev = Inr payload"
    and "fst (beforeRequest env
           (tracer_Start ''kafka.publish'' [attribute_String ''kafka.topic'' topic] p)) = Inr gen"
  shows "fst (Publish env topic ev p) =
           (case SendMessage env (length (sent p)) (message env topic ev payload p) of
              Inl err \<Rightarrow> Some (Errorf (''failed to publish to '' @ topic) err)
            | Inr x \<Rightarrow> None)"
    and "sent (snd (Publish env topic ev p)) =
           sent p @ [(message env topic ev payload p,
                      SendMessage env (length (sent p)) (message env topic ev payload p))]"
  using assms
  by (simp_all add: Publish_Execute Execute_admitted send_result split: sum.splits)

lemma Publish_succeeds:
  assumes "Marshal ev = Inr payload"
    and "fst (beforeRequest env
           (tracer_Start ''kafka.publish'' [attribute_String ''kafka.topic'' topic] p)) = Inr gen"
  shows "isSuccessful (fst (send env topic (message env topic ev payload p)
            (snd (beforeRequest env
               (tracer_Start ''kafka.publish'' [attribute_String ''kafka.topic'' topic] p)))))
         = (fst (Publish env topic ev p) = None)"
  using assms
  by (simp add: Publish_Execute Execute_admitted send_result split: sum.splits)

lemma Publish_closed:
  assumes "Marshal ev = Inr payload"
    and "state (cb p) = StateClosed" "expiry (cb p) = Some e"
    and "Now env (clock p) \<le> e" "Now env (clock p + 1) \<le> e"
  shows "clock (snd (Publish env topic ev p)) = clock p + 2"
    and "cb (snd (Publish env topic ev p)) =
     (let c = counts_onRequest (counts (cb p)) in
      if fst (Publish env topic ev p) = None
      then (cb p)\<lparr>counts := counts_onSuccess c\<rparr>
      else if ReadyToTrip (counts_onFailure c)
      then \<lparr>state = StateOpen, generation = generation (cb p) + 1, counts = counts_clear,
            expiry = Some (Now env (clock p + 1) + Timeout)\<rparr>
      else (cb p)\<lparr>counts := counts_onFailure c\<rparr>)"
    and "fst (Publish env topic ev p) =
           (case SendMessage env (length (sent p)) (message env topic ev payload p) of
              Inl err \<Rightarrow> Some (Errorf (''failed to publish to '' @ topic) err)
            | Inr x \<Rightarrow> None)"
    and "sent (snd (Publish env topic ev p)) =
           sent p @ [(message env topic ev payload p,
                      SendMessage env (length (sent p)) (message env topic ev payload p))]"
proof -
  let ?p0 = "tracer_Start ''kafka.publish'' [attribute_String ''kafka.topic'' topic] p"
  let ?msg = "message env topic ev payload p"
  have c: "state (cb ?p0) = StateClosed" "expiry (cb ?p0) = Some e"
    "Now env (clock ?p0) \<le> e" "Now env (clock ?p0 + 1) \<le> e"
    using assms by simp_all
  note ex = Execute_closed [OF quiet_send [of env topic ?msg] c]
  have adm: "fst (beforeRequest env ?p0) = Inr (generation (cb p))"
    using beforeRequest_closed(1) [OF c(1,2,3)] by simp
  note ok = Publish_succeeds [OF assms(1) adm]
  show "clock (snd (Publish env topic ev p)) = clock p + 2"
    using ex(2) by (simp add: Publish_Execute [OF assms(1)])
  show "cb (snd (Publish env topic ev p)) =
     (let c = counts_onRequest (counts (cb p)) in
      if fst (Publish env topic ev p) = None
      then (cb p)\<lparr>counts := counts_onSuccess c\<rparr>
      else if ReadyToTrip (counts_onFailure c)
      then \<lparr>state = StateOpen, generation = generation (cb p) + 1, counts = counts_clear,
            expiry = Some (Now env (clock p + 1) + Timeout)\<rparr>
      else (cb p)\<lparr>counts := counts_onFailure c\<rparr>)"
    using ex(3) unfolding ok by (simp add: Publish_Execute(2) [OF assms(1)] Let_def)
  show "fst (Publish env topic ev p) =
           (case SendMessage env (length (sent p)) ?msg of
              Inl err \<Rightarrow> Some (Errorf (''failed to publish to '' @ topic) err)
            | Inr x \<Rightarrow> None)"
    by (rule Publish_admitted(1) [OF assms(1) adm])
  show "sent (snd (Publish env topic ev p)) =
           sent p @ [(?msg, SendMessage env (length (sent p)) ?msg)]"
    by (rule Publish_admitted(2) [OF assms(1) adm])
qed

lemma Publish_open:
  assumes "Marshal ev = Inr payload"
    and "state (cb p) = StateOpen" "expiry (cb p) = Some e" "Now env (clock p) \<le> e"
  shows "fst (Publish env topic ev p) =
           Some (Errorf (''failed to publish to '' @ topic) ErrOpenState)"
    and "cb (snd (Publish env topic ev p)) = cb p"
    and "sent (snd (Publish env topic ev p)) = sent p"
    and "clock (snd (Publish env topic ev p)) = clock p + 1"
proof -
  let ?p0 = "tracer_Start ''kafka.publish'' [attribute_String ''kafka.topic'' topic] p"
  have c: "state (cb ?p0) = StateOpen" "expiry (cb ?p0) = Some e" "Now env (clock ?p0) \<le> e"
    using assms by simp_all
  note ex = Execute_open [OF c]
  show "fst (Publish env topic ev p) =
           Some (Errorf (''failed to publish to '' @ topic) ErrOpenState)"
    by (simp add: Publish_Execute [OF assms(1)] ex)
  show "cb (snd (Publish env topic ev p)) = cb p"
    by (simp add: Publish_Execute [OF assms(1)] ex)
  show "sent (snd (Publish env topic ev p)) = sent p"
    by (simp add: Publish_Execute [OF assms(1)] ex)
  show "clock (snd (Publish env topic ev p)) = clock p + 1"
    by (simp add: Publish_Execute [OF assms(1)] ex)
qed

lemma Publish_cooled:
  assumes "Marshal ev = Inr payload"
    and "state (cb p) = StateOpen" "expiry (cb p) = Some e" "e < Now env (clock p)"
  shows "clock (snd (Publish env topic ev p)) = clock p + 2"
    and "cb (snd (Publish env topic ev p)) =
     (if fst (Publish env topic ev p) = None
      then \<lparr>state = StateHalfOpen, generation = generation (cb p) + 1,
            counts = counts_onSuccess (counts_onRequest counts_clear), expiry = None\<rparr>
      else \<lparr>state = StateOpen, generation = generation (cb p) + 2, counts = counts_clear,
            expiry = Some (Now env (clock p + 1) + Timeout)\<rparr>)"
    and "fst (Publish env topic ev p) =
           (case SendMessage env (length (sent p)) (message env topic ev payload p) of
              Inl err \<Rightarrow> Some (Errorf (''failed to publish to '' @ topic) err)
            | Inr x \<Rightarrow> None)"
    and "sent (snd (Publish env topic ev p)) =
           sent p @ [(message env topic ev payload p,
                      SendMessage env (length (sent p)) (message env topic ev payload p))]"
proof -
  let ?p0 = "tracer_Start ''kafka.publish'' [attribute_String ''kafka.topic'' topic] p"
  let ?msg = "message env topic ev payload p"
  have c: "state (cb ?p0) = StateOpen" "expiry (cb ?p0) = Some e" "e < Now env (clock ?p0)"
    using assms by simp_all
  note ex = Execute_cooled [OF quiet_send [of env topic ?msg] c]
  have adm: "fst (beforeRequest env ?p0) = Inr (generation (cb p) + 1)"
    using beforeRequest_cooled(1) [OF c] by simp
  note ok = Publish_succeeds [OF assms(1) adm]
  show "clock (snd (Publish env topic ev p)) = clock p + 2"
    using ex(2) by (simp add: Publish_Execute [OF assms(1)])
  show "cb (snd (Publish env topic ev p)) =
     (if fst (Publish env topic ev p) = None
      then \<lparr>state = StateHalfOpen, generation = generation (cb p) + 1,
            counts = counts_onSuccess (counts_onRequest counts_clear), expiry = None\<rparr>
      else \<lparr>state = StateOpen, generation = generation (cb p) + 2, counts = counts_clear,
            expiry = Some (Now env (clock p + 1) + Timeout)\<rparr>)"
    using ex(3) unfolding ok by (simp add: Publish_Execute(2) [OF assms(1)] Let_def)
  show "fst (Publish env topic ev p) =
           (case SendMessage env (length (sent p)) ?msg of
              Inl err \<Rightarrow> Some (Errorf (''failed to publish to '' @ topic) err)
            | Inr x \<Rightarrow> None)"
    by (rule Publish_admitted(1) [OF assms(1) adm])
  show "sent (snd (Publish env topic ev p)) =
           sent p @ [(?msg, SendMessage env (length (sent p)) ?msg)]"
    by (rule Publish_admitted(2) [OF assms(1) adm])
qed

lemma Publish_halfopen:
  assumes "Marshal ev = Inr payload"
    and "state (cb p) = StateHalfOpen" "Requests (counts (cb p)) < MaxRequests"
  shows "clock (snd (Publish env topic ev p)) = clock p + 2"
    and "cb (snd (Publish env topic ev p)) =
     (if fst (Publish env topic ev p) = None
      then if MaxRequests \<le> ConsecutiveSuccesses (counts (cb p)) + 1
           then \<lparr>state = StateClosed, generation = generation (cb p) + 1,
                 counts = counts_clear, expiry = Some (Now env (clock p + 1) + Interval)\<rparr>
           else (cb p)\<lparr>counts := counts_onSuccess (counts_onRequest (counts (cb p)))\<rparr>
      else \<lparr>state = StateOpen, generation = generation (cb p) + 1, counts = counts_clear,
            expiry = Some (Now env (clock p + 1) + Timeout)\<rparr>)"
proof -
  let ?p0 = "tracer_Start ''kafka.publish'' [attribute_String ''kafka.topic'' topic] p"
  let ?msg = "message env topic ev payload p"
  have c: "state (cb ?p0) = StateHalfOpen" "Requests (counts (cb ?p0)) < MaxRequests"
    using assms by simp_all
  note ex = Execute_halfopen [OF quiet_send [of env topic ?msg] c, of env]
  have adm: "fst (beforeRequest env ?p0) = Inr (generation (cb p))"
    using beforeRequest_halfopen(1) [OF c] by simp
  note ok = Publish_succeeds [OF assms(1) adm]
  show "clock (snd (Publish env topic ev p)) = clock p + 2"
    using ex(2) by (simp add: Publish_Execute [OF assms(1)])
  show "cb (snd (Publish env topic ev p)) =
     (if fst (Publish env topic ev p) = None
      then if MaxRequests \<le> ConsecutiveSuccesses (counts (cb p)) + 1
           then \<lparr>state = StateClosed, generation = generation (cb p) + 1,
                 counts = counts_clear, expiry = Some (Now env (clock p + 1) + Interval)\<rparr>
           else (cb p)\<lparr>counts := counts_onSuccess (counts_onRequest (counts (cb p)))\<rparr>
      else \<lparr>state = StateOpen, generation = generation (cb p) + 1, counts = counts_clear,
            expiry = Some (Now env (clock p + 1) + Timeout)\<rparr>)"
    using ex(3) unfolding ok by (simp add: Publish_Execute(2) [OF assms(1)] Let_def)
qed

lemma Publish_halfopen_result:
  assumes "Marshal ev = Inr payload"
    and "state (cb p) = StateHalfOpen" "Requests (counts (cb p)) < MaxRequests"
  shows "fst (Publish env topic ev p) =
           (case SendMessage env (length (sent p)) (message env topic ev payload p) of
              Inl err \<Rightarrow> Some (Errorf (''failed to publish to '' @ topic) err)
            | Inr x \<Rightarrow> None)"
    and "sent (snd (Publish env topic ev p)) =
           sent p @ [(message env topic ev payload p,
                      SendMessage env (length (sent p)) (message env topic ev payload p))]"
proof -
  let ?p0 = "tracer_Start ''kafka.publish'' [attribute_String ''kafka.topic'' topic] p"
  have c: "state (cb ?p0) = StateHalfOpen" "Requests (counts (cb ?p0)) < MaxRequests"
    using assms by simp_all
  have adm: "fst (beforeRequest env ?p0) = Inr (generation (cb p))"
    using beforeRequest_halfopen(1) [OF c] by simp
  show "fst (Publish env topic ev p) =
           (case SendMessage env (length (sent p)) (message env topic ev payload p) of
              Inl err \<Rightarrow> Some (Errorf (''failed to publish to '' @ topic) err)
            | Inr x \<Rightarrow> None)"
    by (rule Publish_admitted(1) [OF assms(1) adm])
  show "sent (snd (Publish env topic ev p)) =
           sent p @ [(message env topic ev payload p,
                      SendMessage env (length (sent p)) (message env topic ev payload p))]"
    by (rule Publish_admitted(2) [OF assms(1) adm])
qed

section \<open>The examples, run\<close>

lemmas run_defs =
  PublishBatch_def Publish_def Execute_def beforeRequest_def afterRequest_def time_Now_def
  currentState_def cb_onSuccess_def cb_onFailure_def setState_def toNewGeneration_def
  counts_onRequest_def counts_onSuccess_def counts_onFailure_def counts_clear_def
  ReadyToTrip_iff send_def message_def tracer_Start_def span_RecordError_def span_End_def
  Debug_def Error_log_def Warn_def OnStateChange_def NewCircuitBreaker_def
  Interval_def Timeout_def Second_def MaxRequests_def Name_def Let_def
  example_env_def example_event_def example_producer_def

lemma example_event_Marshal: "Marshal example_event = Inr ''{}''"
  by (simp add: example_event_def)

lemma example_producer_fresh:
  "state (cb example_producer) = StateClosed"
  "counts (cb example_producer) = counts_clear"
  "expiry (cb example_producer) = Some (0 + Interval)"
  by (simp_all add: example_producer_def NewCircuitBreaker_def toNewGeneration_def
      Interval_def Second_def)

lemma scenario_run:
  "fst (Publish_each (example_env (\<lambda>k. 0) (\<lambda>k. k < 2)) ''payments''
          [example_event, example_event, example_event, example_event, example_event]
          example_producer) = [None, None, Some broker_down, Some broker_down, Some broker_down] \<and>
   cb after_scenario =
     \<lparr>state = StateOpen, generation = 2, counts = counts_clear, expiry = Some (30 * Second)\<rparr> \<and>
   length (sent after_scenario) = 5"
proof -
  have "\<exists>P. Publish_each (example_env (\<lambda>k. 0) (\<lambda>k. k < 2)) ''payments''
          [example_event, example_event, example_event, example_event, example_event]
          example_producer
        = ([None, None, Some broker_down, Some broker_down, Some broker_down], P) \<and>
       cb P = \<lparr>state = StateOpen, generation = 2, counts = counts_clear,
               expiry = Some (30 * Second)\<rparr> \<and>
       length (sent P) = 5"
    by (simp add: run_defs broker_down_def)
  then show ?thesis by (auto simp: after_scenario_def)
qed

lemma closed_run:
  "\<exists>P. Publish_each (example_env (\<lambda>k. 0) (\<lambda>k. 2 \<le> k)) ''payments''
          [example_event, example_event, example_event] example_producer
        = ([Some broker_down, Some broker_down, None], P) \<and>
       state (cb P) = StateClosed \<and>
       counts (cb P) = \<lparr>Requests = 3, TotalSuccesses = 1, TotalFailures = 2,
                         ConsecutiveSuccesses = 1, ConsecutiveFailures = 0\<rparr>"
  by (simp add: run_defs broker_down_def)

lemma warm_run:
  "\<exists>P. Publish_each warming_env ''payments''
          [example_event, example_event, example_event] example_producer
        = ([None, None, None], P) \<and>
       cb P = \<lparr>state = StateClosed, generation = 1,
               counts = \<lparr>Requests = 3, TotalSuccesses = 3, TotalFailures = 0,
                         ConsecutiveSuccesses = 3, ConsecutiveFailures = 0\<rparr>,
               expiry = Some (10 * Second)\<rparr> \<and>
       clock P = 7"
  by (simp add: run_defs warming_env_def)

lemma warm_producer_eval:
  "cb warm_producer = \<lparr>state = StateClosed, generation = 1,
               counts = \<lparr>Requests = 3, TotalSuccesses = 3, TotalFailures = 0,
                         ConsecutiveSuccesses = 3, ConsecutiveFailures = 0\<rparr>,
               expiry = Some (10 * Second)\<rparr>"
  "clock warm_producer = 7"
  using warm_run by (auto simp: warm_producer_def)

lemma cold_run:
  "\<exists>P. Publish_each warming_env ''payments''
          [example_event, example_event, example_event] warm_producer
        = ([Some broker_down, Some broker_down, Some broker_down], P) \<and>
       state (cb P) = StateClosed \<and>
       counts (cb P) = \<lparr>Requests = 6, TotalSuccesses = 3, TotalFailures = 3,
                         ConsecutiveSuccesses = 0, ConsecutiveFailures = 3\<rparr>"
  by (simp add: run_defs warming_env_def warm_producer_def broker_down_def)

lemma once_run:
  "\<exists>P. Publish once_env ''payments'' example_event example_producer = (None, P) \<and>
       cb P = \<lparr>state = StateClosed, generation = 1,
               counts = \<lparr>Requests = 1, TotalSuccesses = 1, TotalFailures = 0,
                         ConsecutiveSuccesses = 1, ConsecutiveFailures = 0\<rparr>,
               expiry = Some (10 * Second)\<rparr> \<and>
       clock P = 3"
  by (simp add: run_defs once_env_def)

lemma once_producer_eval:
  "cb once_producer = \<lparr>state = StateClosed, generation = 1,
               counts = \<lparr>Requests = 1, TotalSuccesses = 1, TotalFailures = 0,
                         ConsecutiveSuccesses = 1, ConsecutiveFailures = 0\<rparr>,
               expiry = Some (10 * Second)\<rparr>"
  "clock once_producer = 3"
  using once_run by (auto simp: once_producer_def)

lemma once_then_two_failures:
  "\<exists>P. Publish_each once_env ''payments'' [example_event, example_event] once_producer
        = ([Some broker_down, Some broker_down], P)"
  by (simp add: run_defs once_env_def once_producer_def broker_down_def)

lemma batch_run:
  "\<exists>P. PublishBatch (example_env (\<lambda>k. 0) (\<lambda>k. k < 2)) ''payments''
          [example_event, example_event, example_event] example_producer
        = (Some broker_down, P) \<and>
       map summary (sent P) =
         [(''payments'', ''123'', Inr ''{}'', True), (''payments'', ''123'', Inr ''{}'', True),
          (''payments'', ''123'', Inr ''{}'', False)]"
  by (simp add: run_defs summary_def broker_down_def)

lemma recovering_env_eval:
  "Now recovering_env k = (if k < 7 then 0 else 31 * Second)"
  "SendMessage recovering_env k msg =
     (if 3 \<le> k then Inr (0, int k) else Inl (LibError ''kafka: broker not available''))"
  by (simp_all add: recovering_env_def example_env_def)

lemma tripped_run:
  "\<exists>P. Publish_each recovering_env ''payments''
          [example_event, example_event, example_event] example_producer
        = ([Some broker_down, Some broker_down, Some broker_down], P) \<and>
       cb P = \<lparr>state = StateOpen, generation = 2, counts = counts_clear,
               expiry = Some (30 * Second)\<rparr> \<and>
       length (sent P) = 3 \<and> clock P = 7"
  by (simp add: run_defs broker_down_def recovering_env_def)

lemma tripped_producer_eval:
  "cb tripped_producer = \<lparr>state = StateOpen, generation = 2, counts = counts_clear,
               expiry = Some (30 * Second)\<rparr>"
  "length (sent tripped_producer) = 3"
  "clock tripped_producer = 7"
  using tripped_run by (auto simp: tripped_producer_def)

lemma first_probe:
  "fst (Publish recovering_env ''payments'' example_event tripped_producer) = None"
  "cb (snd (Publish recovering_env ''payments'' example_event tripped_producer)) =
     \<lparr>state = StateHalfOpen, generation = 3,
      counts = \<lparr>Requests = 1, TotalSuccesses = 1, TotalFailures = 0,
                ConsecutiveSuccesses = 1, ConsecutiveFailures = 0\<rparr>,
      expiry = None\<rparr>"
  "length (sent (snd (Publish recovering_env ''payments'' example_event tripped_producer))) = 4"
  "clock (snd (Publish recovering_env ''payments'' example_event tripped_producer)) = 9"
proof -
  have o: "state (cb tripped_producer) = StateOpen"
    "expiry (cb tripped_producer) = Some (30 * Second)"
    "30 * Second < Now recovering_env (clock tripped_producer)"
    by (simp_all add: tripped_producer_eval recovering_env_eval Second_def)
  note step = Publish_cooled [OF example_event_Marshal o, of "''payments''"]
  show r: "fst (Publish recovering_env ''payments'' example_event tripped_producer) = None"
    using step(3) by (simp add: tripped_producer_eval recovering_env_eval)
  show "cb (snd (Publish recovering_env ''payments'' example_event tripped_producer)) =
     \<lparr>state = StateHalfOpen, generation = 3,
      counts = \<lparr>Requests = 1, TotalSuccesses = 1, TotalFailures = 0,
                ConsecutiveSuccesses = 1, ConsecutiveFailures = 0\<rparr>,
      expiry = None\<rparr>"
    using step(2) r
    by (simp add: tripped_producer_eval counts_onSuccess_def counts_onRequest_def counts_clear_def)
  show "length (sent (snd (Publish recovering_env ''payments'' example_event tripped_producer))) = 4"
    using step(4) by (simp add: tripped_producer_eval)
  show "clock (snd (Publish recovering_env ''payments'' example_event tripped_producer)) = 9"
    using step(1) by (simp add: tripped_producer_eval)
qed

lemma probed_producer_eval:
  "cb probed_producer =
     \<lparr>state = StateHalfOpen, generation = 3,
      counts = \<lparr>Requests = 2, TotalSuccesses = 2, TotalFailures = 0,
                ConsecutiveSuccesses = 2, ConsecutiveFailures = 0\<rparr>,
      expiry = None\<rparr>"
  "length (sent probed_producer) = 5"
  "clock probed_producer = 11"
proof -
  let ?p1 = "snd (Publish recovering_env ''payments'' example_event tripped_producer)"
  have eq: "probed_producer = snd (Publish recovering_env ''payments'' example_event ?p1)"
    by (simp add: probed_producer_def case_prod_beta)
  have h: "state (cb ?p1) = StateHalfOpen" "Requests (counts (cb ?p1)) < MaxRequests"
    by (simp_all add: first_probe MaxRequests_def)
  note step = Publish_halfopen [OF example_event_Marshal h, of recovering_env "''payments''"]
  note res = Publish_halfopen_result [OF example_event_Marshal h, of recovering_env "''payments''"]
  have r: "fst (Publish recovering_env ''payments'' example_event ?p1) = None"
    using res(1) by (simp add: first_probe recovering_env_eval)
  show "cb probed_producer =
     \<lparr>state = StateHalfOpen, generation = 3,
      counts = \<lparr>Requests = 2, TotalSuccesses = 2, TotalFailures = 0,
                ConsecutiveSuccesses = 2, ConsecutiveFailures = 0\<rparr>,
      expiry = None\<rparr>"
    unfolding eq using step(2) r
    by (simp add: first_probe MaxRequests_def counts_onSuccess_def counts_onRequest_def)
  show "length (sent probed_producer) = 5"
    unfolding eq using res(2) by (simp add: first_probe)
  show "clock probed_producer = 11"
    unfolding eq using step(1) by (simp add: first_probe)
qed

lemma third_probe:
  "fst (Publish recovering_env ''payments'' example_event probed_producer) = None"
  "cb (snd (Publish recovering_env ''payments'' example_event probed_producer)) =
     \<lparr>state = StateClosed, generation = 4, counts = counts_clear,
      expiry = Some (31 * Second + Interval)\<rparr>"
proof -
  have h: "state (cb probed_producer) = StateHalfOpen"
    "Requests (counts (cb probed_producer)) < MaxRequests"
    by (simp_all add: probed_producer_eval MaxRequests_def)
  note step = Publish_halfopen [OF example_event_Marshal h, of recovering_env "''payments''"]
  note res = Publish_halfopen_result [OF example_event_Marshal h, of recovering_env "''payments''"]
  show r: "fst (Publish recovering_env ''payments'' example_event probed_producer) = None"
    using res(1) by (simp add: probed_producer_eval recovering_env_eval)
  show "cb (snd (Publish recovering_env ''payments'' example_event probed_producer)) =
     \<lparr>state = StateClosed, generation = 4, counts = counts_clear,
      expiry = Some (31 * Second + Interval)\<rparr>"
    using step(2) r by (simp add: probed_producer_eval recovering_env_eval MaxRequests_def)
qed

section \<open>NewProducer\<close>

text \<open>
  Claim C9. For every ProducerConfig, and whatever \<open>sarama.NewConfig()\<close> returns, the
  configuration NewProducer builds has idempotent delivery enabled and allows exactly
  one open request per connection. That configuration, with the brokers of the
  ProducerConfig, is what the one call of \<open>sarama.NewSyncProducer\<close> receives: if the
  call fails NewProducer returns its error wrapped and no producer, and if it succeeds
  NewProducer returns the producer created by it. So every producer that NewProducer
  constructs was created by sarama with idempotent delivery and at most one request in
  flight.
\<close>

theorem NewProducer_idempotent_single_in_flight:
  "Producer_Idempotent (NewProducer_config new cfg) \<and>
   Net_MaxOpenRequests (NewProducer_config new cfg) = 1 \<and>
   (NewProducer env cfg = Inr p \<longrightarrow>
      NewSyncProducer env (Brokers cfg) (config p) = None \<and>
      config p = NewProducer_config (NewConfig env) cfg \<and>
      Producer_Idempotent (config p) \<and> Net_MaxOpenRequests (config p) = 1) \<and>
   (NewSyncProducer env (Brokers cfg) (NewProducer_config (NewConfig env) cfg) = Some err \<longrightarrow>
      NewProducer env cfg = Inl (Errorf ''failed to create kafka producer'' err)) \<and>
   (NewSyncProducer env (Brokers cfg) (NewProducer_config (NewConfig env) cfg) = None \<longrightarrow>
      NewProducer env cfg =
        Inr \<lparr>config = NewProducer_config (NewConfig env) cfg, sent = [],
             cb = NewCircuitBreaker (Now env 0), logger = [], tracer = [], clock = 1\<rparr>)"
proof (intro conjI impI)
  show "Producer_Idempotent (NewProducer_config new cfg)"
    by (simp add: NewProducer_config_def)
  show "Net_MaxOpenRequests (NewProducer_config new cfg) = 1"
    by (simp add: NewProducer_config_def)
  {
    assume made: "NewProducer env cfg = Inr p"
    then have ok: "NewSyncProducer env (Brokers cfg) (NewProducer_config (NewConfig env) cfg) = None"
      by (cases "NewSyncProducer env (Brokers cfg) (NewProducer_config (NewConfig env) cfg)")
         (simp_all add: NewProducer_def Let_def)
    with made show c: "config p = NewProducer_config (NewConfig env) cfg"
      by (auto simp: NewProducer_def Let_def)
    from ok c show "NewSyncProducer env (Brokers cfg) (config p) = None" by simp
    from c show "Producer_Idempotent (config p)" by (simp add: NewProducer_config_def)
    from c show "Net_MaxOpenRequests (config p) = 1" by (simp add: NewProducer_config_def)
  }
  {
    assume "NewSyncProducer env (Brokers cfg) (NewProducer_config (NewConfig env) cfg) = Some err"
    then show "NewProducer env cfg = Inl (Errorf ''failed to create kafka producer'' err)"
      by (simp add: NewProducer_def Let_def)
  }
  {
    assume "NewSyncProducer env (Brokers cfg) (NewProducer_config (NewConfig env) cfg) = None"
    then show "NewProducer env cfg =
        Inr \<lparr>config = NewProducer_config (NewConfig env) cfg, sent = [],
             cb = NewCircuitBreaker (Now env 0), logger = [], tracer = [], clock = 1\<rparr>"
      by (simp add: NewProducer_def Let_def)
  }
qed

theorem NewProducer_idempotent_single_in_flight_witness:
  "NewProducer (example_env (\<lambda>k. 0) (\<lambda>k. True))
     (DefaultProducerConfig [''localhost:9092''] ''payments'') = Inr example_producer \<and>
   NewSyncProducer (example_env (\<lambda>k. 0) (\<lambda>k. True)) [''localhost:9092'']
     (config example_producer) = None \<and>
   Producer_Idempotent (config example_producer) \<and>
   Net_MaxOpenRequests (config example_producer) = 1 \<and>
   NewProducer no_broker_env (DefaultProducerConfig [''localhost:9092''] ''payments'') =
     Inl (Errorf ''failed to create kafka producer''
            (LibError ''kafka: client has run out of available brokers to talk to''))"
proof -
  let ?env = "example_env (\<lambda>k. 0) (\<lambda>k. True)"
  let ?cfg = "DefaultProducerConfig [''localhost:9092''] ''payments''"
  let ?err = "LibError ''kafka: client has run out of available brokers to talk to''"
  have made: "NewProducer ?env ?cfg = Inr example_producer"
    by (simp add: NewProducer_def example_env_def example_producer_def Let_def)
  have refused: "NewSyncProducer no_broker_env (Brokers ?cfg)
           (NewProducer_config (NewConfig no_broker_env) ?cfg) = Some ?err"
    by (simp add: no_broker_env_def)
  have brokers: "Brokers ?cfg = [''localhost:9092'']"
    by (simp add: DefaultProducerConfig_def)
  note up = NewProducer_idempotent_single_in_flight
      [of "NewConfig ?env" ?cfg ?env example_producer,
       THEN conjunct2, THEN conjunct2, THEN conjunct1, THEN mp, OF made]
  note down = NewProducer_idempotent_single_in_flight
      [of "NewConfig no_broker_env" ?cfg no_broker_env _ ?err,
       THEN conjunct2, THEN conjunct2, THEN conjunct2, THEN conjunct1, THEN mp, OF refused]
  from made up [unfolded brokers] down show ?thesis by blast
qed

section \<open>Publish\<close>

text \<open>
  Claim C5. When the body of the event cannot be serialized, Publish returns the
  serialization error wrapped as "failed to marshal event" at once: nothing is sent
  (no call of \<open>SendMessage\<close>, hence no retry), the circuit breaker is as it was, state
  and counters, the clock has not been read and nothing has been logged. All that
  changes is the span, which records the error and ends.
\<close>

theorem Publish_marshal_failure:
  "Marshal event = Inl err \<Longrightarrow>
     Publish env topic event p =
       (Some (Errorf ''failed to marshal event'' err),
        p\<lparr>tracer := tracer p @
             [SpanStart ''kafka.publish'' [attribute_String ''kafka.topic'' topic],
              RecordError err, SpanEnd]\<rparr>) \<and>
     sent (snd (Publish env topic event p)) = sent p \<and>
     cb (snd (Publish env topic event p)) = cb p \<and>
     clock (snd (Publish env topic event p)) = clock p \<and>
     logger (snd (Publish env topic event p)) = logger p"
  by (simp add: Publish_def tracer_Start_def span_RecordError_def span_End_def)

theorem Publish_marshal_failure_witness:
  "Marshal unserializable_event = Inl (LibError ''json: unsupported type: chan int'') \<and>
   fst (Publish (example_env (\<lambda>k. 0) (\<lambda>k. True)) ''payments'' unserializable_event
          example_producer)
     = Some (Errorf ''failed to marshal event''
               (LibError ''json: unsupported type: chan int'')) \<and>
   sent (snd (Publish (example_env (\<lambda>k. 0) (\<lambda>k. True)) ''payments'' unserializable_event
                example_producer)) = [] \<and>
   cb (snd (Publish (example_env (\<lambda>k. 0) (\<lambda>k. True)) ''payments'' unserializable_event
              example_producer)) = NewCircuitBreaker 0"
proof -
  have m: "Marshal unserializable_event = Inl (LibError ''json: unsupported type: chan int'')"
    by (simp add: unserializable_event_def)
  from Publish_marshal_failure
         [OF m, of "example_env (\<lambda>k. 0) (\<lambda>k. True)" "''payments''" example_producer] m
  show ?thesis by (simp add: example_producer_def)
qed

text \<open>
  Claim C6, as amended. Publish returns no error exactly when the event serializes and
  the send through the breaker succeeds. When the breaker rejects the call or the
  transport fails, Publish returns "failed to publish to <topic>: <cause>", an error
  that wraps the cause: the breaker's own error when the circuit is open, the error of
  \<open>SendMessage\<close> when the transport fails. A success while the breaker is closed and
  its window has not expired leaves the breaker as it was but for the counting of the
  call: \<open>Requests\<close>, \<open>TotalSuccesses\<close> and \<open>ConsecutiveSuccesses\<close> go up by one and
  \<open>ConsecutiveFailures\<close> goes to zero. (A success while the breaker is half-open can
  change its state, as the counterexample below shows: that part of the claim as it
  was stated does not hold.)
\<close>

theorem Publish_returns_nil_iff_send_succeeds:
  "(fst (Publish env topic ev p) = None) =
     (\<not> isl (Marshal ev) \<and>
      fst (Execute env (send env topic (message env topic ev (projr (Marshal ev)) p))
             (tracer_Start ''kafka.publish'' [attribute_String ''kafka.topic'' topic] p))
        = Inr ()) \<and>
   (\<not> isl (Marshal ev) \<and>
    fst (Execute env (send env topic (message env topic ev (projr (Marshal ev)) p))
           (tracer_Start ''kafka.publish'' [attribute_String ''kafka.topic'' topic] p))
      = Inl cause \<longrightarrow>
      fst (Publish env topic ev p) = Some (Errorf (''failed to publish to '' @ topic) cause) \<and>
      Error (Errorf (''failed to publish to '' @ topic) cause) =
        ''failed to publish to '' @ topic @ '': '' @ Error cause \<and>
      Unwrap (Errorf (''failed to publish to '' @ topic) cause) = Some cause) \<and>
   (\<not> isl (Marshal ev) \<and> state (cb p) = StateOpen \<and> expiry (cb p) = Some e \<and>
    Now env (clock p) \<le> e \<longrightarrow>
      fst (Publish env topic ev p) =
        Some (Errorf (''failed to publish to '' @ topic) ErrOpenState)) \<and>
   (\<not> isl (Marshal ev) \<and> state (cb p) = StateClosed \<and> expiry (cb p) = Some e \<and>
    Now env (clock p) \<le> e \<and> Now env (clock p + 1) \<le> e \<and>
    SendMessage env (length (sent p)) (message env topic ev (projr (Marshal ev)) p)
      = Inl cause \<longrightarrow>
      fst (Publish env topic ev p) =
        Some (Errorf (''failed to publish to '' @ topic) cause)) \<and>
   (\<not> isl (Marshal ev) \<and> state (cb p) = StateClosed \<and> expiry (cb p) = Some e \<and>
    Now env (clock p) \<le> e \<and> Now env (clock p + 1) \<le> e \<and>
    fst (Publish env topic ev p) = None \<longrightarrow>
      cb (snd (Publish env topic ev p)) =
        (cb p)\<lparr>counts := counts_onSuccess (counts_onRequest (counts (cb p)))\<rparr>)"
proof (intro conjI impI)
  let ?X = "Execute env (send env topic (message env topic ev (projr (Marshal ev)) p))
             (tracer_Start ''kafka.publish'' [attribute_String ''kafka.topic'' topic] p)"
  show "(fst (Publish env topic ev p) = None) = (\<not> isl (Marshal ev) \<and> fst ?X = Inr ())"
  proof (cases "Marshal ev")
    case (Inl err)
    then show ?thesis by (simp add: Publish_def)
  next
    case (Inr payload)
    then show ?thesis
      using Publish_Execute(1) [OF Inr, of env topic p] by (auto split: sum.splits)
  qed
  {
    assume a: "\<not> isl (Marshal ev) \<and> fst ?X = Inl cause"
    then have m: "Marshal ev = Inr (projr (Marshal ev))" by (intro serializable) simp
    from Publish_Execute(1) [OF m, of env topic p] a
    show "fst (Publish env topic ev p) = Some (Errorf (''failed to publish to '' @ topic) cause)"
      by simp
    show "Error (Errorf (''failed to publish to '' @ topic) cause) =
        ''failed to publish to '' @ topic @ '': '' @ Error cause" by simp
    show "Unwrap (Errorf (''failed to publish to '' @ topic) cause) = Some cause" by simp
  }
  {
    assume a: "\<not> isl (Marshal ev) \<and> state (cb p) = StateOpen \<and> expiry (cb p) = Some e \<and>
      Now env (clock p) \<le> e"
    then have m: "Marshal ev = Inr (projr (Marshal ev))" by (intro serializable) simp
    from a have o: "state (cb p) = StateOpen" "expiry (cb p) = Some e" "Now env (clock p) \<le> e"
      by simp_all
    show "fst (Publish env topic ev p) =
        Some (Errorf (''failed to publish to '' @ topic) ErrOpenState)"
      by (rule Publish_open(1) [OF m o])
  }
  {
    assume a: "\<not> isl (Marshal ev) \<and> state (cb p) = StateClosed \<and> expiry (cb p) = Some e \<and>
      Now env (clock p) \<le> e \<and> Now env (clock p + 1) \<le> e \<and>
      SendMessage env (length (sent p)) (message env topic ev (projr (Marshal ev)) p)
        = Inl cause"
    then have m: "Marshal ev = Inr (projr (Marshal ev))" by (intro serializable) simp
    from a have c: "state (cb p) = StateClosed" "expiry (cb p) = Some e"
      "Now env (clock p) \<le> e" "Now env (clock p + 1) \<le> e" by simp_all
    from Publish_closed(3) [OF m c, of topic] a
    show "fst (Publish env topic ev p) = Some (Errorf (''failed to publish to '' @ topic) cause)"
      by simp
  }
  {
    assume a: "\<not> isl (Marshal ev) \<and> state (cb p) = StateClosed \<and> expiry (cb p) = Some e \<and>
      Now env (clock p) \<le> e \<and> Now env (clock p + 1) \<le> e \<and>
      fst (Publish env topic ev p) = None"
    then have m: "Marshal ev = Inr (projr (Marshal ev))" by (intro serializable) simp
    from a have c: "state (cb p) = StateClosed" "expiry (cb p) = Some e"
      "Now env (clock p) \<le> e" "Now env (clock p + 1) \<le> e" by simp_all
    from Publish_closed(2) [OF m c, of topic] a
    show "cb (snd (Publish env topic ev p)) =
        (cb p)\<lparr>counts := counts_onSuccess (counts_onRequest (counts (cb p)))\<rparr>"
      by (simp add: Let_def)
  }
qed

theorem Publish_returns_nil_iff_send_succeeds_witness:
  "fst (Publish (example_env (\<lambda>k. 0) (\<lambda>k. True)) ''payments'' example_event example_producer)
     = None \<and>
   cb (snd (Publish (example_env (\<lambda>k. 0) (\<lambda>k. True)) ''payments'' example_event
              example_producer)) =
     (cb example_producer)
       \<lparr>counts := \<lparr>Requests = 1, TotalSuccesses = 1, TotalFailures = 0,
                   ConsecutiveSuccesses = 1, ConsecutiveFailures = 0\<rparr>\<rparr> \<and>
   fst (Publish (example_env (\<lambda>k. 0) (\<lambda>k. False)) ''payments'' example_event example_producer)
     = Some (Errorf ''failed to publish to payments''
               (LibError ''kafka: broker not available''))"
proof -
  let ?up = "example_env (\<lambda>k. 0) (\<lambda>k. True)"
  let ?down = "example_env (\<lambda>k. 0) (\<lambda>k. False)"
  have c: "state (cb example_producer) = StateClosed"
    "expiry (cb example_producer) = Some (10 * Second)"
    "counts (cb example_producer) = counts_clear"
    by (simp_all add: example_producer_def NewCircuitBreaker_def toNewGeneration_def
        Interval_def Second_def)
  have t: "Now ?up (clock example_producer) \<le> 10 * Second"
    "Now ?up (clock example_producer + 1) \<le> 10 * Second"
    "Now ?down (clock example_producer) \<le> 10 * Second"
    "Now ?down (clock example_producer + 1) \<le> 10 * Second"
    by (simp_all add: example_env_def)
  have r: "fst (Publish ?up ''payments'' example_event example_producer) = None"
    using Publish_closed(3) [OF example_event_Marshal c(1,2) t(1,2), of "''payments''"]
    by (simp add: example_env_def)
  have d: "SendMessage ?down (length (sent example_producer))
             (message ?down ''payments'' example_event (projr (Marshal example_event))
                example_producer) = Inl (LibError ''kafka: broker not available'')"
    by (simp add: example_env_def)
  have m: "\<not> isl (Marshal example_event)" by (simp add: example_event_def)
  from Publish_returns_nil_iff_send_succeeds
         [of ?up "''payments''" example_event example_producer _ "10 * Second"]
       Publish_returns_nil_iff_send_succeeds
         [of ?down "''payments''" example_event example_producer
             "LibError ''kafka: broker not available''" "10 * Second"]
       m c t r d
  show ?thesis
    by (simp add: counts_onSuccess_def counts_onRequest_def counts_clear_def)
qed

theorem successful_probe_closes_breaker_counterexample:
  "state (cb probed_producer) = StateHalfOpen \<and>
   TotalSuccesses (counts (cb probed_producer)) = 2 \<and>
   fst (Publish recovering_env ''payments'' example_event probed_producer) = None \<and>
   state (cb (snd (Publish recovering_env ''payments'' example_event probed_producer)))
     = StateClosed \<and>
   TotalSuccesses
     (counts (cb (snd (Publish recovering_env ''payments'' example_event probed_producer))))
     = 0 \<and>
   generation (cb (snd (Publish recovering_env ''payments'' example_event probed_producer)))
     = generation (cb probed_producer) + 1"
  by (simp add: probed_producer_eval third_probe counts_clear_def)

section \<open>PublishBatch\<close>

lemma Execute_send_sent:
  "Execute env (send env topic msg) p = (r, p') \<Longrightarrow>
     (r = Inr () \<and> (\<exists>part off. sent p' = sent p @ [(msg, Inr (part, off))])) \<or>
     ((\<exists>err. r = Inl err) \<and>
      (sent p' = sent p \<or> (\<exists>err. sent p' = sent p @ [(msg, Inl err)])))"
proof (cases "beforeRequest env p")
  case (Pair a p1)
  have s1: "sent p1 = sent p"
    using beforeRequest_frame(1) [of env p] Pair by simp
  show "Execute env (send env topic msg) p = (r, p') \<Longrightarrow> ?thesis"
  proof (cases a)
    case (Inl err)
    assume "Execute env (send env topic msg) p = (r, p')"
    with Pair Inl s1 show ?thesis by (auto simp: Execute_def)
  next
    case (Inr gen)
    assume "Execute env (send env topic msg) p = (r, p')"
    with Pair Inr s1 show ?thesis
      by (auto simp: Execute_def send_def Let_def Debug_def split: sum.splits prod.splits)
  qed
qed

lemma Publish_None:
  assumes "Publish env topic ev p = (None, p')"
  shows "\<exists>payload part off. Marshal ev = Inr payload \<and>
           sent p' = sent p @ [(message env topic ev payload p, Inr (part, off))]"
proof (cases "Marshal ev")
  case (Inl err)
  with assms show ?thesis by (simp add: Publish_def)
next
  case (Inr payload)
  let ?p0 = "tracer_Start ''kafka.publish'' [attribute_String ''kafka.topic'' topic] p"
  let ?msg = "message env topic ev payload p"
  obtain r p1 where ex: "Execute env (send env topic ?msg) ?p0 = (r, p1)"
    by (cases "Execute env (send env topic ?msg) ?p0") blast
  from assms Inr ex have r: "r = Inr ()" and p': "p' = span_End p1"
    by (auto simp: Publish_def Let_def split: sum.splits)
  from Execute_send_sent [OF ex] r
  obtain part off where "sent p1 = sent ?p0 @ [(?msg, Inr (part, off))]" by auto
  then have "sent p' = sent p @ [(?msg, Inr (part, off))]"
    by (simp add: p' span_End_def tracer_Start_def)
  with Inr show ?thesis by blast
qed

lemma Publish_Some:
  assumes "Publish env topic ev p = (Some err, p')"
  shows "\<exists>ys. sent p' = sent p @ ys \<and> map (isSuccessful \<circ> snd) ys = replicate (length ys) False"
proof (cases "Marshal ev")
  case (Inl e)
  with assms have "sent p' = sent p"
    by (auto simp: Publish_def span_End_def span_RecordError_def tracer_Start_def)
  then show ?thesis by simp
next
  case (Inr payload)
  let ?p0 = "tracer_Start ''kafka.publish'' [attribute_String ''kafka.topic'' topic] p"
  let ?msg = "message env topic ev payload p"
  obtain r p1 where ex: "Execute env (send env topic ?msg) ?p0 = (r, p1)"
    by (cases "Execute env (send env topic ?msg) ?p0") blast
  from assms Inr ex obtain e where r: "r = Inl e" and p': "sent p' = sent p1"
    by (auto simp: Publish_def Let_def span_End_def span_RecordError_def Error_log_def
        split: sum.splits)
  from Execute_send_sent [OF ex] r
  have "sent p1 = sent ?p0 \<or> (\<exists>err. sent p1 = sent ?p0 @ [(?msg, Inl err)])" by auto
  then show ?thesis
  proof
    assume "sent p1 = sent ?p0"
    then have "sent p' = sent p @ []" by (simp add: p' tracer_Start_def)
    then show ?thesis by (intro exI [of _ "[]"]) simp
  next
    assume "\<exists>err. sent p1 = sent ?p0 @ [(?msg, Inl err)]"
    then obtain e' where "sent p' = sent p @ [(?msg, Inl e')]"
      by (auto simp: p' tracer_Start_def)
    then show ?thesis by (intro exI [of _ "[(?msg, Inl e')]"]) simp
  qed
qed

lemma loop_None:
  "PublishBatch_loop env topic events p = (None, p') \<Longrightarrow>
     \<exists>entries. sent p' = sent p @ entries \<and>
       map summary entries = map (\<lambda>ev. (topic, EventKey ev, Marshal ev, True)) events"
proof (induction events arbitrary: p)
  case Nil
  then show ?case by simp
next
  case (Cons ev events)
  obtain r p1 where pub: "Publish env topic ev p = (r, p1)"
    by (cases "Publish env topic ev p") blast
  with Cons.prems have r: "r = None" and rest: "PublishBatch_loop env topic events p1 = (None, p')"
    by (auto split: option.splits)
  from Publish_None [OF pub [unfolded r]]
  obtain payload part off where m: "Marshal ev = Inr payload"
    and s1: "sent p1 = sent p @ [(message env topic ev payload p, Inr (part, off))]" by blast
  from Cons.IH [OF rest] obtain entries where s2: "sent p' = sent p1 @ entries"
    and sm: "map summary entries = map (\<lambda>ev. (topic, EventKey ev, Marshal ev, True)) events"
    by blast
  let ?es = "(message env topic ev payload p, Inr (part, off)) # entries"
  have "sent p' = sent p @ ?es" using s1 s2 by simp
  moreover have "map summary ?es = map (\<lambda>ev. (topic, EventKey ev, Marshal ev, True)) (ev # events)"
    using sm m by (simp add: summary_def message_def)
  ultimately show ?case by blast
qed

lemma loop_stops:
  "PublishBatch_loop env topic pre p = (None, p1) \<Longrightarrow>
   Publish env topic ev p1 = (Some err, p2) \<Longrightarrow>
   PublishBatch_loop env topic (pre @ ev # post) p = (Some err, p2)"
proof (induction pre arbitrary: p)
  case Nil
  then show ?case by simp
next
  case (Cons a pre)
  obtain r q where pub: "Publish env topic a p = (r, q)"
    by (cases "Publish env topic a p") blast
  with Cons.prems(1) have r: "r = None" and rest: "PublishBatch_loop env topic pre q = (None, p1)"
    by (auto split: option.splits)
  from Cons.IH [OF rest Cons.prems(2)] pub r show ?case by simp
qed

lemma loop_Some:
  "PublishBatch_loop env topic events p = (Some err, p') \<Longrightarrow>
     \<exists>pre ev post p1. events = pre @ ev # post \<and>
       PublishBatch_loop env topic pre p = (None, p1) \<and>
       Publish env topic ev p1 = (Some err, p')"
proof (induction events arbitrary: p)
  case Nil
  then show ?case by simp
next
  case (Cons a events)
  obtain r q where pub: "Publish env topic a p = (r, q)"
    by (cases "Publish env topic a p") blast
  show ?case
  proof (cases r)
    case None
    with Cons.prems pub have "PublishBatch_loop env topic events q = (Some err, p')" by simp
    from Cons.IH [OF this] obtain pre ev post p1 where
      "events = pre @ ev # post" "PublishBatch_loop env topic pre q = (None, p1)"
      "Publish env topic ev p1 = (Some err, p')" by blast
    with pub None have "a # events = (a # pre) @ ev # post \<and>
       PublishBatch_loop env topic (a # pre) p = (None, p1) \<and>
       Publish env topic ev p1 = (Some err, p')" by simp
    then show ?thesis by blast
  next
    case (Some e)
    with Cons.prems pub have "e = err" "q = p'" by simp_all
    with pub Some have "a # events = [] @ a # events \<and>
       PublishBatch_loop env topic [] p = (None, p) \<and>
       Publish env topic a p = (Some err, p')" by simp
    then show ?thesis by blast
  qed
qed

text \<open>
  Claim C7. PublishBatch publishes the events one after the other in the order of the
  list. When it returns no error, every event was sent once, in that order, and
  acknowledged. When it returns an error, the list splits into the events before the
  failing one, which were all sent and acknowledged and stay so (the calls made remain
  in \<open>sent\<close>; nothing is undone), the first event whose Publish fails, whose error is the
  one returned, and the events after it, which are not attempted: what is added to
  \<open>sent\<close> after the acknowledged calls is at most the failed call itself.
\<close>

theorem PublishBatch_stops_at_first_failure:
  "(PublishBatch env topic events p = (None, p') \<longrightarrow>
      (\<exists>entries. sent p' = sent p @ entries \<and>
         map summary entries = map (\<lambda>ev. (topic, EventKey ev, Marshal ev, True)) events)) \<and>
   (PublishBatch env topic events p = (Some err, p') \<longrightarrow>
      (\<exists>pre ev post p1 p2 entries ys.
         events = pre @ ev # post \<and>
         PublishBatch_loop env topic pre
           (tracer_Start ''kafka.publish_batch''
              [attribute_String ''kafka.topic'' topic,
               attribute_Int ''batch_size'' (int (length events))] p) = (None, p1) \<and>
         sent p1 = sent p @ entries \<and>
         map summary entries = map (\<lambda>ev. (topic, EventKey ev, Marshal ev, True)) pre \<and>
         Publish env topic ev p1 = (Some err, p2) \<and>
         p' = span_End p2 \<and>
         sent p' = sent p @ entries @ ys \<and>
         map (isSuccessful \<circ> snd) ys = replicate (length ys) False)) \<and>
   (\<forall>pre ev post p1 p2.
      PublishBatch_loop env topic pre
        (tracer_Start ''kafka.publish_batch''
           [attribute_String ''kafka.topic'' topic,
            attribute_Int ''batch_size'' (int (length (pre @ ev # post)))] p) = (None, p1) \<and>
      Publish env topic ev p1 = (Some err, p2) \<longrightarrow>
      PublishBatch env topic (pre @ ev # post) p = (Some err, span_End p2))"
proof (intro conjI impI allI)
  let ?p0 = "tracer_Start ''kafka.publish_batch''
              [attribute_String ''kafka.topic'' topic,
               attribute_Int ''batch_size'' (int (length events))] p"
  have s0: "sent ?p0 = sent p" by (simp add: tracer_Start_def)
  {
    assume a: "PublishBatch env topic events p = (None, p')"
    obtain r q where l: "PublishBatch_loop env topic events ?p0 = (r, q)"
      by (cases "PublishBatch_loop env topic events ?p0") blast
    with a have r: "r = None" and p': "p' = span_End q"
      by (auto simp: PublishBatch_def Let_def)
    from loop_None [OF l [unfolded r]] obtain entries where
      "sent q = sent ?p0 @ entries"
      "map summary entries = map (\<lambda>ev. (topic, EventKey ev, Marshal ev, True)) events"
      by blast
    then show "\<exists>entries. sent p' = sent p @ entries \<and>
         map summary entries = map (\<lambda>ev. (topic, EventKey ev, Marshal ev, True)) events"
      using s0 p' by (auto simp: span_End_def)
  }
  {
    assume a: "PublishBatch env topic events p = (Some err, p')"
    obtain r q where l: "PublishBatch_loop env topic events ?p0 = (r, q)"
      by (cases "PublishBatch_loop env topic events ?p0") blast
    with a have r: "r = Some err" and p': "p' = span_End q"
      by (auto simp: PublishBatch_def Let_def)
    from loop_Some [OF l [unfolded r]] obtain pre ev post p1 where
      split: "events = pre @ ev # post"
      and before: "PublishBatch_loop env topic pre ?p0 = (None, p1)"
      and fails: "Publish env topic ev p1 = (Some err, q)" by blast
    from loop_None [OF before] obtain entries where
      e1: "sent p1 = sent ?p0 @ entries"
      and e2: "map summary entries = map (\<lambda>ev. (topic, EventKey ev, Marshal ev, True)) pre"
      by blast
    from Publish_Some [OF fails] obtain ys where
      y1: "sent q = sent p1 @ ys"
      and y2: "map (isSuccessful \<circ> snd) ys = replicate (length ys) False" by blast
    have "sent p' = sent p @ entries @ ys"
      using e1 y1 s0 p' by (simp add: span_End_def)
    with split before e1 e2 fails p' y2 s0
    show "\<exists>pre ev post p1 p2 entries ys.
         events = pre @ ev # post \<and>
         PublishBatch_loop env topic pre ?p0 = (None, p1) \<and>
         sent p1 = sent p @ entries \<and>
         map summary entries = map (\<lambda>ev. (topic, EventKey ev, Marshal ev, True)) pre \<and>
         Publish env topic ev p1 = (Some err, p2) \<and>
         p' = span_End p2 \<and>
         sent p' = sent p @ entries @ ys \<and>
         map (isSuccessful \<circ> snd) ys = replicate (length ys) False"
      by (intro exI [of _ pre] exI [of _ ev] exI [of _ post] exI [of _ p1] exI [of _ q]
          exI [of _ entries] exI [of _ ys]) simp
  }
  {
    fix pre ev post p1 p2
    assume "PublishBatch_loop env topic pre
        (tracer_Start ''kafka.publish_batch''
           [attribute_String ''kafka.topic'' topic,
            attribute_Int ''batch_size'' (int (length (pre @ ev # post)))] p) = (None, p1) \<and>
      Publish env topic ev p1 = (Some err, p2)"
    then show "PublishBatch env topic (pre @ ev # post) p = (Some err, span_End p2)"
      using loop_stops [of env topic pre _ p1 ev err p2 post]
      by (simp add: PublishBatch_def Let_def)
  }
qed

theorem PublishBatch_stops_at_first_failure_witness:
  "fst (PublishBatch (example_env (\<lambda>k. 0) (\<lambda>k. k < 2)) ''payments''
          [example_event, example_event, example_event] example_producer)
     = Some broker_down \<and>
   map summary (sent (snd (PublishBatch (example_env (\<lambda>k. 0) (\<lambda>k. k < 2)) ''payments''
          [example_event, example_event, example_event] example_producer)))
     = [(''payments'', ''123'', Inr ''{}'', True), (''payments'', ''123'', Inr ''{}'', True),
        (''payments'', ''123'', Inr ''{}'', False)] \<and>
   (\<exists>entries ys.
      sent (snd (PublishBatch (example_env (\<lambda>k. 0) (\<lambda>k. k < 2)) ''payments''
          [example_event, example_event, example_event] example_producer))
        = sent example_producer @ entries @ ys \<and>
      map summary entries =
        map (\<lambda>ev. (''payments'', EventKey ev, Marshal ev, True))
          (take (length entries) [example_event, example_event, example_event]) \<and>
      map (isSuccessful \<circ> snd) ys = replicate (length ys) False)"
proof -
  let ?B = "PublishBatch (example_env (\<lambda>k. 0) (\<lambda>k. k < 2)) ''payments''
          [example_event, example_event, example_event] example_producer"
  from batch_run obtain P where run: "?B = (Some broker_down, P)"
    and s: "map summary (sent P) =
         [(''payments'', ''123'', Inr ''{}'', True), (''payments'', ''123'', Inr ''{}'', True),
          (''payments'', ''123'', Inr ''{}'', False)]" by (elim exE conjE)
  note inst = PublishBatch_stops_at_first_failure
         [of "example_env (\<lambda>k. 0) (\<lambda>k. k < 2)" "''payments''"
             "[example_event, example_event, example_event]" example_producer P broker_down]
  from inst [THEN conjunct2, THEN conjunct1, THEN mp, OF run]
  obtain pre ev post entries ys where
    split: "[example_event, example_event, example_event] = pre @ ev # post"
    and e: "map summary entries = map (\<lambda>ev. (''payments'', EventKey ev, Marshal ev, True)) pre"
    and ss: "sent P = sent example_producer @ entries @ ys"
    and f: "map (isSuccessful \<circ> snd) ys = replicate (length ys) False"
    by (elim exE conjE) (rule that, assumption+)
  have "length (map summary entries) =
          length (map (\<lambda>ev. (''payments'', EventKey ev, Marshal ev, True)) pre)"
    by (simp only: e)
  then have len: "length entries = length pre" by (simp only: length_map)
  have "take (length entries) [example_event, example_event, example_event] = pre"
    unfolding len split by simp
  with e ss f have "\<exists>entries ys. sent P = sent example_producer @ entries @ ys \<and>
      map summary entries =
        map (\<lambda>ev. (''payments'', EventKey ev, Marshal ev, True))
          (take (length entries) [example_event, example_event, example_event]) \<and>
      map (isSuccessful \<circ> snd) ys = replicate (length ys) False"
    by blast
  with run s show ?thesis by simp
qed

section \<open>The breaker over a sequence of calls\<close>

lemma each_Cons:
  "fst (Publish_each env topic (ev # evs) p) =
     fst (Publish env topic ev p) #
     fst (Publish_each env topic evs (snd (Publish env topic ev p)))"
  "snd (Publish_each env topic (ev # evs) p) =
     snd (Publish_each env topic evs (snd (Publish env topic ev p)))"
  by (simp_all add: case_prod_beta)

lemma each_snoc:
  "fst (Publish_each env topic (evs @ [ev]) p) =
     fst (Publish_each env topic evs p) @
     [fst (Publish env topic ev (snd (Publish_each env topic evs p)))]"
  "snd (Publish_each env topic (evs @ [ev]) p) =
     snd (Publish env topic ev (snd (Publish_each env topic evs p)))"
  by (induction evs arbitrary: p) (simp_all add: case_prod_beta)

lemma Publish_clock_mono: "clock p \<le> clock (snd (Publish env topic ev p))"
proof (cases "Marshal ev")
  case (Inl err)
  then show ?thesis
    by (simp add: Publish_def span_End_def span_RecordError_def tracer_Start_def)
next
  case (Inr payload)
  let ?p0 = "tracer_Start ''kafka.publish'' [attribute_String ''kafka.topic'' topic] p"
  let ?req = "send env topic (message env topic ev payload p)"
  have "clock ?p0 \<le> clock (snd (Execute env ?req ?p0))"
  proof (cases "fst (beforeRequest env ?p0)")
    case (Inl err)
    then have "Execute env ?req ?p0 = (Inl err, snd (beforeRequest env ?p0))"
      by (cases "beforeRequest env ?p0") (simp add: Execute_def)
    then show ?thesis by simp
  next
    case (Inr gen)
    have "clock (snd (?req (snd (beforeRequest env ?p0)))) = clock ?p0 + 1"
      using quiet_send [of env topic "message env topic ev payload p"]
      by (simp add: quiet_def)
    then show ?thesis by (simp add: Execute_admitted [OF Inr])
  qed
  then show ?thesis by (simp add: Publish_Execute(3) [OF Inr])
qed

lemma each_clock_mono: "clock p \<le> clock (snd (Publish_each env topic events p))"
proof (induction events arbitrary: p)
  case Nil
  then show ?case by simp
next
  case (Cons ev events)
  have "clock p \<le> clock (snd (Publish env topic ev p))" by (rule Publish_clock_mono)
  also have "\<dots> \<le> clock (snd (Publish_each env topic events (snd (Publish env topic ev p))))"
    by (rule Cons.IH)
  finally show ?case by (simp only: each_Cons)
qed

lemma each_open:
  assumes "\<forall>ev\<in>set events. \<not> isl (Marshal ev)"
    and "state (cb p) = StateOpen" "expiry (cb p) = Some e"
    and "\<forall>k. clock p \<le> k \<and> k < clock p + 2 * length events \<longrightarrow> Now env k \<le> e"
  shows "cb (snd (Publish_each env topic events p)) = cb p \<and>
         clock (snd (Publish_each env topic events p)) \<le> clock p + 2 * length events"
  using assms
proof (induction events arbitrary: p)
  case Nil
  then show ?case by simp
next
  case (Cons ev events)
  from Cons.prems(1) obtain payload where m: "Marshal ev = Inr payload"
    by (cases "Marshal ev") auto
  from Cons.prems(4) have now: "Now env (clock p) \<le> e" by simp
  let ?q = "snd (Publish env topic ev p)"
  note step = Publish_open [OF m Cons.prems(2,3) now, of topic]
  have same: "cb ?q = cb p" and tick: "clock ?q = clock p + 1"
    by (rule step(2), rule step(4))
  have w: "\<forall>k. clock ?q \<le> k \<and> k < clock ?q + 2 * length events \<longrightarrow> Now env k \<le> e"
    using Cons.prems(4) by (simp add: tick)
  have "cb (snd (Publish_each env topic events ?q)) = cb ?q \<and>
        clock (snd (Publish_each env topic events ?q)) \<le> clock ?q + 2 * length events"
    using Cons.prems(1,2,3) w by (intro Cons.IH) (simp_all add: same)
  then show ?case by (simp only: each_Cons same tick) simp
qed

lemma each_closed:
  assumes "\<forall>ev\<in>set events. \<not> isl (Marshal ev)"
    and "state (cb p) = StateClosed" "expiry (cb p) = Some e"
    and "\<forall>k. clock p \<le> k \<and> k < clock p + 2 * length events \<longrightarrow>
             Now env k \<le> e \<and> e \<le> Now env k + Timeout"
  shows "clock (snd (Publish_each env topic events p)) \<le> clock p + 2 * length events \<and>
         ((state (cb (snd (Publish_each env topic events p))) = StateOpen \<and>
           (\<exists>e'. expiry (cb (snd (Publish_each env topic events p))) = Some e' \<and> e \<le> e')) \<or>
          (state (cb (snd (Publish_each env topic events p))) = StateClosed \<and>
           expiry (cb (snd (Publish_each env topic events p))) = Some e \<and>
           Requests (counts (cb (snd (Publish_each env topic events p)))) =
             Requests (counts (cb p)) + length events \<and>
           TotalFailures (counts (cb (snd (Publish_each env topic events p)))) =
             TotalFailures (counts (cb p)) +
             failures (fst (Publish_each env topic events p))))"
  using assms
proof (induction events arbitrary: p)
  case Nil
  then show ?case by (simp add: failures_def)
next
  case (Cons ev events)
  from Cons.prems(1) obtain payload where m: "Marshal ev = Inr payload"
    by (cases "Marshal ev") auto
  from Cons.prems(1) have rest: "\<forall>ev\<in>set events. \<not> isl (Marshal ev)" by simp
  from Cons.prems(4) have now: "Now env (clock p) \<le> e" "Now env (clock p + 1) \<le> e"
    and cover: "e \<le> Now env (clock p + 1) + Timeout"
    by simp_all
  let ?r = "fst (Publish env topic ev p)"
  let ?q = "snd (Publish env topic ev p)"
  let ?c = "counts_onRequest (counts (cb p))"
  note step = Publish_closed(2) [OF m Cons.prems(2,3) now, of topic, unfolded Let_def]
  have tick: "clock ?q = clock p + 2"
    by (rule Publish_closed(1) [OF m Cons.prems(2,3) now])
  show ?case
  proof (cases "?r \<noteq> None \<and> ReadyToTrip (counts_onFailure ?c)")
    case True
    with step have q: "state (cb ?q) = StateOpen"
      "expiry (cb ?q) = Some (Now env (clock p + 1) + Timeout)" by simp_all
    have w: "\<forall>k. clock ?q \<le> k \<and> k < clock ?q + 2 * length events \<longrightarrow>
               Now env k \<le> Now env (clock p + 1) + Timeout"
    proof (intro allI impI)
      fix k
      assume "clock ?q \<le> k \<and> k < clock ?q + 2 * length events"
      then have "Now env k \<le> e" using Cons.prems(4) by (simp add: tick)
      with cover show "Now env k \<le> Now env (clock p + 1) + Timeout" by simp
    qed
    from each_open [OF rest q w, of topic] q cover
    show ?thesis by (simp only: each_Cons tick) auto
  next
    case False
    with step have q: "state (cb ?q) = StateClosed" "expiry (cb ?q) = Some e"
      "Requests (counts (cb ?q)) = Requests (counts (cb p)) + 1"
      "TotalFailures (counts (cb ?q)) = TotalFailures (counts (cb p)) + failures [?r]"
      using Cons.prems(2,3)
      by (auto simp: counts_onRequest_def counts_onSuccess_def counts_onFailure_def
          failures_def)
    have w: "\<forall>k. clock ?q \<le> k \<and> k < clock ?q + 2 * length events \<longrightarrow>
               Now env k \<le> e \<and> e \<le> Now env k + Timeout"
      using Cons.prems(4) by (simp add: tick)
    from Cons.IH [OF rest q(1,2) w] q(3,4)
    show ?thesis by (simp only: each_Cons tick) (auto simp: failures_def)
  qed
qed

lemma trip_general:
  assumes ser: "\<forall>ev\<in>set events. \<not> isl (Marshal ev)"
    and nonempty: "events \<noteq> []"
    and closed: "state (cb p) = StateClosed" "expiry (cb p) = Some (t0 + Interval)"
    and window: "\<forall>k. clock p \<le> k \<and> k < clock p + 2 * length events \<longrightarrow>
                   t0 \<le> Now env k \<and> Now env k \<le> t0 + Interval"
    and n: "3 \<le> Requests (counts (cb p)) + length events"
    and ratio: "0.6 \<le> real (TotalFailures (counts (cb p)) +
                             failures (fst (Publish_each env topic events p))) /
                       real (Requests (counts (cb p)) + length events)"
    and lastf: "last (fst (Publish_each env topic events p)) \<noteq> None"
  shows "state (cb (snd (Publish_each env topic events p))) = StateOpen"
proof -
  from nonempty obtain pre ev where ev: "events = pre @ [ev]"
    by (cases events rule: rev_cases) auto
  let ?p1 = "snd (Publish_each env topic pre p)"
  let ?rs1 = "fst (Publish_each env topic pre p)"
  let ?r = "fst (Publish env topic ev ?p1)"
  have rs: "fst (Publish_each env topic events p) = ?rs1 @ [?r]"
    and fin: "snd (Publish_each env topic events p) = snd (Publish env topic ev ?p1)"
    unfolding ev by (rule each_snoc)+
  from lastf have r: "?r \<noteq> None" by (simp add: rs)
  from ser obtain payload where m: "Marshal ev = Inr payload"
    unfolding ev by (cases "Marshal ev") auto
  from ser have ser1: "\<forall>ev\<in>set pre. \<not> isl (Marshal ev)" unfolding ev by simp
  have w: "\<forall>k. clock p \<le> k \<and> k < clock p + 2 * length events \<longrightarrow>
             Now env k \<le> t0 + Interval \<and> t0 + Interval \<le> Now env k + Timeout"
  proof (intro allI impI)
    fix k
    assume "clock p \<le> k \<and> k < clock p + 2 * length events"
    with window have "t0 \<le> Now env k" "Now env k \<le> t0 + Interval" by simp_all
    then show "Now env k \<le> t0 + Interval \<and> t0 + Interval \<le> Now env k + Timeout"
      by (simp add: Interval_def Timeout_def Second_def)
  qed
  then have w1: "\<forall>k. clock p \<le> k \<and> k < clock p + 2 * length pre \<longrightarrow>
             Now env k \<le> t0 + Interval \<and> t0 + Interval \<le> Now env k + Timeout"
    unfolding ev by simp
  note inv = each_closed [OF ser1 closed w1, of topic]
  then have late: "clock ?p1 \<le> clock p + 2 * length pre" by simp
  have early: "clock p \<le> clock ?p1" by (rule each_clock_mono)
  have in1: "clock p \<le> clock ?p1 \<and> clock ?p1 < clock p + 2 * length events"
    and in2: "clock p \<le> clock ?p1 + 1 \<and> clock ?p1 + 1 < clock p + 2 * length events"
    using early late unfolding ev by simp_all
  from inv have "(state (cb ?p1) = StateOpen \<and>
           (\<exists>e'. expiry (cb ?p1) = Some e' \<and> t0 + Interval \<le> e')) \<or>
          (state (cb ?p1) = StateClosed \<and> expiry (cb ?p1) = Some (t0 + Interval) \<and>
           Requests (counts (cb ?p1)) = Requests (counts (cb p)) + length pre \<and>
           TotalFailures (counts (cb ?p1)) = TotalFailures (counts (cb p)) + failures ?rs1)"
    by simp
  then show ?thesis
  proof
    assume "state (cb ?p1) = StateOpen \<and>
      (\<exists>e'. expiry (cb ?p1) = Some e' \<and> t0 + Interval \<le> e')"
    then obtain e' where o: "state (cb ?p1) = StateOpen" "expiry (cb ?p1) = Some e'"
      and le: "t0 + Interval \<le> e'" by blast
    from w in1 have "Now env (clock ?p1) \<le> t0 + Interval" by blast
    with le have now: "Now env (clock ?p1) \<le> e'" by simp
    from Publish_open(2) [OF m o now, of topic] o(1) show ?thesis by (simp add: fin)
  next
    assume c: "state (cb ?p1) = StateClosed \<and> expiry (cb ?p1) = Some (t0 + Interval) \<and>
      Requests (counts (cb ?p1)) = Requests (counts (cb p)) + length pre \<and>
      TotalFailures (counts (cb ?p1)) = TotalFailures (counts (cb p)) + failures ?rs1"
    have now: "Now env (clock ?p1) \<le> t0 + Interval" "Now env (clock ?p1 + 1) \<le> t0 + Interval"
      using w in1 in2 by blast+
    have req: "Requests (counts_onFailure (counts_onRequest (counts (cb ?p1)))) =
          Requests (counts (cb p)) + length events"
      using c by (simp add: counts_onFailure_def counts_onRequest_def ev)
    have fl: "TotalFailures (counts_onFailure (counts_onRequest (counts (cb ?p1)))) =
          TotalFailures (counts (cb p)) + failures (fst (Publish_each env topic events p))"
      using c r by (simp add: counts_onFailure_def counts_onRequest_def rs failures_def)
    have trip: "ReadyToTrip (counts_onFailure (counts_onRequest (counts (cb ?p1))))"
      unfolding ReadyToTrip_def Let_def req fl using n ratio by simp
    from c have c1: "state (cb ?p1) = StateClosed" "expiry (cb ?p1) = Some (t0 + Interval)"
      by simp_all
    from Publish_closed(2) [OF m c1 now, of topic] r trip
    show ?thesis by (simp add: fin Let_def)
  qed
qed

text \<open>
  Claim C1, as amended. The breaker looks at the counters of its evaluation window,
  and it does so when a call fails, not when one succeeds. So: for every sequence of
  calls of Publish with serializable events, made within one evaluation window and
  ending with a failed call, if the window then counts at least 3 calls and a failure
  ratio of at least 0.6, the calls made in the window before the sequence included,
  the breaker is open after the sequence. For a sequence that starts the window (the
  counters are cleared) this is: at least 3 calls, a failure ratio of at least 0.6 and
  a failed last call. While the breaker is open and its cooldown has not elapsed,
  every call of Publish returns the circuit-open error (wrapped with the topic)
  without calling \<open>SendMessage\<close> and without changing the breaker. In particular two
  successes followed by three failures leave a new breaker open, and the next Publish
  returns the circuit-open error.
\<close>

theorem breaker_trips_when_a_failure_meets_the_ratio:
  "((\<forall>ev\<in>set events. \<not> isl (Marshal ev)) \<and> events \<noteq> [] \<and>
    state (cb p) = StateClosed \<and> expiry (cb p) = Some (t0 + Interval) \<and>
    (\<forall>k. clock p \<le> k \<and> k < clock p + 2 * length events \<longrightarrow>
         t0 \<le> Now env k \<and> Now env k \<le> t0 + Interval) \<and>
    3 \<le> Requests (counts (cb p)) + length events \<and>
    0.6 \<le> real (TotalFailures (counts (cb p)) +
                 failures (fst (Publish_each env topic events p))) /
           real (Requests (counts (cb p)) + length events) \<and>
    last (fst (Publish_each env topic events p)) \<noteq> None
    \<longrightarrow> state (cb (snd (Publish_each env topic events p))) = StateOpen) \<and>
   ((\<forall>ev\<in>set events. \<not> isl (Marshal ev)) \<and>
    state (cb p) = StateClosed \<and> counts (cb p) = counts_clear \<and>
    expiry (cb p) = Some (t0 + Interval) \<and>
    (\<forall>k. clock p \<le> k \<and> k < clock p + 2 * length events \<longrightarrow>
         t0 \<le> Now env k \<and> Now env k \<le> t0 + Interval) \<and>
    3 \<le> length events \<and>
    0.6 \<le> real (failures (fst (Publish_each env topic events p))) / real (length events) \<and>
    last (fst (Publish_each env topic events p)) \<noteq> None
    \<longrightarrow> state (cb (snd (Publish_each env topic events p))) = StateOpen) \<and>
   (\<not> isl (Marshal ev) \<and> state (cb q) = StateOpen \<and> expiry (cb q) = Some e \<and>
    Now env (clock q) \<le> e
    \<longrightarrow> fst (Publish env topic ev q) =
          Some (Errorf (''failed to publish to '' @ topic) ErrOpenState) \<and>
        sent (snd (Publish env topic ev q)) = sent q \<and>
        cb (snd (Publish env topic ev q)) = cb q) \<and>
   fst (Publish_each (example_env (\<lambda>k. 0) (\<lambda>k. k < 2)) ''payments''
          [example_event, example_event, example_event, example_event, example_event]
          example_producer)
     = [None, None, Some broker_down, Some broker_down, Some broker_down] \<and>
   state (cb after_scenario) = StateOpen \<and>
   fst (Publish (example_env (\<lambda>k. 0) (\<lambda>k. k < 2)) ''payments'' example_event after_scenario)
     = Some (Errorf ''failed to publish to payments'' ErrOpenState) \<and>
   sent (snd (Publish (example_env (\<lambda>k. 0) (\<lambda>k. k < 2)) ''payments'' example_event
                after_scenario)) = sent after_scenario"
proof (intro conjI impI)
  assume "(\<forall>ev\<in>set events. \<not> isl (Marshal ev)) \<and> events \<noteq> [] \<and>
    state (cb p) = StateClosed \<and> expiry (cb p) = Some (t0 + Interval) \<and>
    (\<forall>k. clock p \<le> k \<and> k < clock p + 2 * length events \<longrightarrow>
         t0 \<le> Now env k \<and> Now env k \<le> t0 + Interval) \<and>
    3 \<le> Requests (counts (cb p)) + length events \<and>
    0.6 \<le> real (TotalFailures (counts (cb p)) +
                 failures (fst (Publish_each env topic events p))) /
           real (Requests (counts (cb p)) + length events) \<and>
    last (fst (Publish_each env topic events p)) \<noteq> None"
  then show "state (cb (snd (Publish_each env topic events p))) = StateOpen"
    by (intro trip_general [of events p t0 env topic]) simp_all
next
  assume a: "(\<forall>ev\<in>set events. \<not> isl (Marshal ev)) \<and>
    state (cb p) = StateClosed \<and> counts (cb p) = counts_clear \<and>
    expiry (cb p) = Some (t0 + Interval) \<and>
    (\<forall>k. clock p \<le> k \<and> k < clock p + 2 * length events \<longrightarrow>
         t0 \<le> Now env k \<and> Now env k \<le> t0 + Interval) \<and>
    3 \<le> length events \<and>
    0.6 \<le> real (failures (fst (Publish_each env topic events p))) / real (length events) \<and>
    last (fst (Publish_each env topic events p)) \<noteq> None"
  then have ne: "events \<noteq> []" by auto
  from a ne show "state (cb (snd (Publish_each env topic events p))) = StateOpen"
    by (intro trip_general [of events p t0 env topic]) (simp_all add: counts_clear_def)
next
  assume a: "\<not> isl (Marshal ev) \<and> state (cb q) = StateOpen \<and> expiry (cb q) = Some e \<and>
    Now env (clock q) \<le> e"
  then obtain payload where m: "Marshal ev = Inr payload" by (cases "Marshal ev") auto
  from a have o: "state (cb q) = StateOpen" "expiry (cb q) = Some e" "Now env (clock q) \<le> e"
    by simp_all
  show "fst (Publish env topic ev q) =
          Some (Errorf (''failed to publish to '' @ topic) ErrOpenState)"
    by (rule Publish_open(1) [OF m o])
  show "sent (snd (Publish env topic ev q)) = sent q"
    by (rule Publish_open(3) [OF m o])
  show "cb (snd (Publish env topic ev q)) = cb q"
    by (rule Publish_open(2) [OF m o])
next
  show "fst (Publish_each (example_env (\<lambda>k. 0) (\<lambda>k. k < 2)) ''payments''
          [example_event, example_event, example_event, example_event, example_event]
          example_producer)
     = [None, None, Some broker_down, Some broker_down, Some broker_down]"
    using scenario_run by simp
  show "state (cb after_scenario) = StateOpen" using scenario_run by simp
  have m: "Marshal example_event = Inr ''{}''" by (simp add: example_event_def)
  have o: "state (cb after_scenario) = StateOpen"
    "expiry (cb after_scenario) = Some (30 * Second)"
    "Now (example_env (\<lambda>k. 0) (\<lambda>k. k < 2)) (clock after_scenario) \<le> 30 * Second"
    using scenario_run by (simp_all add: example_env_def)
  show "fst (Publish (example_env (\<lambda>k. 0) (\<lambda>k. k < 2)) ''payments'' example_event after_scenario)
     = Some (Errorf ''failed to publish to payments'' ErrOpenState)"
    using Publish_open(1) [OF m o, of "''payments''"] by simp
  show "sent (snd (Publish (example_env (\<lambda>k. 0) (\<lambda>k. k < 2)) ''payments'' example_event
                after_scenario)) = sent after_scenario"
    by (rule Publish_open(3) [OF m o])
qed

theorem breaker_trips_when_a_failure_meets_the_ratio_witness:
  "Requests (counts (cb once_producer)) = 1 \<and>
   fst (Publish_each once_env ''payments'' [example_event, example_event] once_producer)
     = [Some broker_down, Some broker_down] \<and>
   state (cb (snd (Publish_each once_env ''payments'' [example_event, example_event]
                     once_producer))) = StateOpen \<and>
   state (cb (snd (Publish_each (example_env (\<lambda>k. 0) (\<lambda>k. k < 2)) ''payments''
          [example_event, example_event, example_event, example_event, example_event]
          example_producer))) = StateOpen \<and>
   fst (Publish (example_env (\<lambda>k. 0) (\<lambda>k. k < 2)) ''payments'' example_event after_scenario)
     = Some (Errorf ''failed to publish to payments'' ErrOpenState) \<and>
   cb (snd (Publish (example_env (\<lambda>k. 0) (\<lambda>k. k < 2)) ''payments'' example_event
              after_scenario)) = cb after_scenario"
proof -
  let ?env = "example_env (\<lambda>k. 0) (\<lambda>k. k < 2)"
  let ?evs = "[example_event, example_event, example_event, example_event, example_event]"
  let ?two = "[example_event, example_event]"
  from once_then_two_failures have two:
    "fst (Publish_each once_env ''payments'' ?two once_producer)
       = [Some broker_down, Some broker_down]" by auto
  have g: "(\<forall>ev\<in>set ?two. \<not> isl (Marshal ev)) \<and> ?two \<noteq> [] \<and>
    state (cb once_producer) = StateClosed \<and>
    expiry (cb once_producer) = Some (0 + Interval) \<and>
    (\<forall>k. clock once_producer \<le> k \<and> k < clock once_producer + 2 * length ?two \<longrightarrow>
         0 \<le> Now once_env k \<and> Now once_env k \<le> 0 + Interval) \<and>
    3 \<le> Requests (counts (cb once_producer)) + length ?two \<and>
    0.6 \<le> real (TotalFailures (counts (cb once_producer)) +
                 failures (fst (Publish_each once_env ''payments'' ?two once_producer))) /
           real (Requests (counts (cb once_producer)) + length ?two) \<and>
    last (fst (Publish_each once_env ''payments'' ?two once_producer)) \<noteq> None"
    unfolding two
    by (simp add: once_producer_eval example_event_def once_env_def example_env_def
        failures_def broker_down_def Interval_def)
  have h: "(\<forall>ev\<in>set ?evs. \<not> isl (Marshal ev)) \<and>
    state (cb example_producer) = StateClosed \<and> counts (cb example_producer) = counts_clear \<and>
    expiry (cb example_producer) = Some (0 + Interval) \<and>
    (\<forall>k. clock example_producer \<le> k \<and> k < clock example_producer + 2 * length ?evs \<longrightarrow>
         0 \<le> Now ?env k \<and> Now ?env k \<le> 0 + Interval) \<and>
    3 \<le> length ?evs \<and>
    0.6 \<le> real (failures (fst (Publish_each ?env ''payments'' ?evs example_producer))) /
            real (length ?evs) \<and>
    last (fst (Publish_each ?env ''payments'' ?evs example_producer)) \<noteq> None"
    using scenario_run example_producer_fresh
    by (simp add: example_event_def example_env_def failures_def broker_down_def)
  have o: "\<not> isl (Marshal example_event) \<and> state (cb after_scenario) = StateOpen \<and>
    expiry (cb after_scenario) = Some (30 * Second) \<and>
    Now ?env (clock after_scenario) \<le> 30 * Second"
    using scenario_run by (simp add: example_event_def example_env_def)
  note general = breaker_trips_when_a_failure_meets_the_ratio
         [of ?two once_producer 0 once_env "''payments''", THEN conjunct1, THEN mp, OF g]
  note fresh = breaker_trips_when_a_failure_meets_the_ratio
         [of ?evs example_producer 0 ?env "''payments''",
          THEN conjunct2, THEN conjunct1, THEN mp, OF h]
  note fast = breaker_trips_when_a_failure_meets_the_ratio
         [of _ _ _ ?env "''payments''" example_event after_scenario "30 * Second",
          THEN conjunct2, THEN conjunct2, THEN conjunct1, THEN mp, OF o]
  from general fresh fast two show ?thesis
    by (simp add: once_producer_eval)
qed

theorem breaker_stays_closed_counterexample:
  "state (cb example_producer) = StateClosed \<and>
   counts (cb example_producer) = counts_clear \<and>
   expiry (cb example_producer) = Some (0 + Interval) \<and>
   (\<forall>k. Now (example_env (\<lambda>k. 0) (\<lambda>k. 2 \<le> k)) k = 0) \<and>
   fst (Publish_each (example_env (\<lambda>k. 0) (\<lambda>k. 2 \<le> k)) ''payments''
          [example_event, example_event, example_event] example_producer)
     = [Some broker_down, Some broker_down, None] \<and>
   (0.6 :: real) \<le> real (failures [Some broker_down, Some broker_down, None]) / real (3 :: nat) \<and>
   state (cb (snd (Publish_each (example_env (\<lambda>k. 0) (\<lambda>k. 2 \<le> k)) ''payments''
          [example_event, example_event, example_event] example_producer))) = StateClosed \<and>
   state (cb warm_producer) = StateClosed \<and>
   expiry (cb warm_producer) = Some (0 + Interval) \<and>
   (\<forall>k. Now warming_env k = 0) \<and>
   fst (Publish_each warming_env ''payments''
          [example_event, example_event, example_event] warm_producer)
     = [Some broker_down, Some broker_down, Some broker_down] \<and>
   (0.6 :: real) \<le>
     real (failures [Some broker_down, Some broker_down, Some broker_down]) / real (3 :: nat) \<and>
   state (cb (snd (Publish_each warming_env ''payments''
          [example_event, example_event, example_event] warm_producer))) = StateClosed"
proof -
  from closed_run obtain P where
    "Publish_each (example_env (\<lambda>k. 0) (\<lambda>k. 2 \<le> k)) ''payments''
          [example_event, example_event, example_event] example_producer
        = ([Some broker_down, Some broker_down, None], P)"
    "state (cb P) = StateClosed" by blast
  moreover from cold_run obtain Q where
    "Publish_each warming_env ''payments''
          [example_event, example_event, example_event] warm_producer
        = ([Some broker_down, Some broker_down, Some broker_down], Q)"
    "state (cb Q) = StateClosed" by blast
  ultimately show ?thesis
    using example_producer_fresh
    by (simp add: failures_def broker_down_def example_env_def warming_env_def
        warm_producer_eval Interval_def)
qed

text \<open>
  Claim C3, as amended. Once the cooldown has elapsed after the breaker opened, the
  next call of Publish is let through to the transport, the breaker being half-open.
  If that call fails, the breaker is open again and its cooldown starts anew from the
  time of the failure. If it succeeds, the breaker stays half-open with the call
  counted; the breaker becomes closed, with its counters cleared, when \<open>MaxRequests\<close>
  (3) consecutive calls have succeeded in the half-open state, and a failure of any of
  them opens it again.
\<close>

theorem probes_after_cooldown:
  "(\<not> isl (Marshal ev) \<and> state (cb p) = StateOpen \<and> expiry (cb p) = Some e \<and>
    e < Now env (clock p) \<longrightarrow>
      sent (snd (Publish env topic ev p)) =
        sent p @ [(message env topic ev (projr (Marshal ev)) p,
                   SendMessage env (length (sent p))
                     (message env topic ev (projr (Marshal ev)) p))] \<and>
      (fst (Publish env topic ev p) = None \<longrightarrow>
         state (cb (snd (Publish env topic ev p))) = StateHalfOpen \<and>
         counts (cb (snd (Publish env topic ev p))) =
           counts_onSuccess (counts_onRequest counts_clear)) \<and>
      (fst (Publish env topic ev p) \<noteq> None \<longrightarrow>
         state (cb (snd (Publish env topic ev p))) = StateOpen \<and>
         counts (cb (snd (Publish env topic ev p))) = counts_clear \<and>
         expiry (cb (snd (Publish env topic ev p))) =
           Some (Now env (clock p + 1) + Timeout))) \<and>
   (\<not> isl (Marshal ev) \<and> state (cb p) = StateHalfOpen \<and>
    Requests (counts (cb p)) < MaxRequests \<longrightarrow>
      (fst (Publish env topic ev p) = None \<and>
       ConsecutiveSuccesses (counts (cb p)) + 1 < MaxRequests \<longrightarrow>
         state (cb (snd (Publish env topic ev p))) = StateHalfOpen \<and>
         counts (cb (snd (Publish env topic ev p))) =
           counts_onSuccess (counts_onRequest (counts (cb p)))) \<and>
      (fst (Publish env topic ev p) = None \<and>
       MaxRequests \<le> ConsecutiveSuccesses (counts (cb p)) + 1 \<longrightarrow>
         state (cb (snd (Publish env topic ev p))) = StateClosed \<and>
         counts (cb (snd (Publish env topic ev p))) = counts_clear \<and>
         expiry (cb (snd (Publish env topic ev p))) =
           Some (Now env (clock p + 1) + Interval)) \<and>
      (fst (Publish env topic ev p) \<noteq> None \<longrightarrow>
         state (cb (snd (Publish env topic ev p))) = StateOpen \<and>
         counts (cb (snd (Publish env topic ev p))) = counts_clear \<and>
         expiry (cb (snd (Publish env topic ev p))) =
           Some (Now env (clock p + 1) + Timeout))) \<and>
   (\<not> isl (Marshal e1) \<and> \<not> isl (Marshal e2) \<and> \<not> isl (Marshal e3) \<and>
    state (cb p) = StateOpen \<and> expiry (cb p) = Some e \<and> e < Now env (clock p) \<and>
    fst (Publish_each env topic [e1, e2, e3] p) = [None, None, None] \<longrightarrow>
      state (cb (snd (Publish_each env topic [e1, e2, e3] p))) = StateClosed \<and>
      counts (cb (snd (Publish_each env topic [e1, e2, e3] p))) = counts_clear)"
proof (intro conjI)
  show "\<not> isl (Marshal ev) \<and> state (cb p) = StateOpen \<and> expiry (cb p) = Some e \<and>
    e < Now env (clock p) \<longrightarrow>
      sent (snd (Publish env topic ev p)) =
        sent p @ [(message env topic ev (projr (Marshal ev)) p,
                   SendMessage env (length (sent p))
                     (message env topic ev (projr (Marshal ev)) p))] \<and>
      (fst (Publish env topic ev p) = None \<longrightarrow>
         state (cb (snd (Publish env topic ev p))) = StateHalfOpen \<and>
         counts (cb (snd (Publish env topic ev p))) =
           counts_onSuccess (counts_onRequest counts_clear)) \<and>
      (fst (Publish env topic ev p) \<noteq> None \<longrightarrow>
         state (cb (snd (Publish env topic ev p))) = StateOpen \<and>
         counts (cb (snd (Publish env topic ev p))) = counts_clear \<and>
         expiry (cb (snd (Publish env topic ev p))) =
           Some (Now env (clock p + 1) + Timeout))"
  proof
    assume a: "\<not> isl (Marshal ev) \<and> state (cb p) = StateOpen \<and> expiry (cb p) = Some e \<and>
      e < Now env (clock p)"
    then have m: "Marshal ev = Inr (projr (Marshal ev))" by (intro serializable) simp
    from a have o: "state (cb p) = StateOpen" "expiry (cb p) = Some e" "e < Now env (clock p)"
      by simp_all
    note step = Publish_cooled [OF m o, of topic]
    from step(2) step(4)
    show "sent (snd (Publish env topic ev p)) =
        sent p @ [(message env topic ev (projr (Marshal ev)) p,
                   SendMessage env (length (sent p))
                     (message env topic ev (projr (Marshal ev)) p))] \<and>
      (fst (Publish env topic ev p) = None \<longrightarrow>
         state (cb (snd (Publish env topic ev p))) = StateHalfOpen \<and>
         counts (cb (snd (Publish env topic ev p))) =
           counts_onSuccess (counts_onRequest counts_clear)) \<and>
      (fst (Publish env topic ev p) \<noteq> None \<longrightarrow>
         state (cb (snd (Publish env topic ev p))) = StateOpen \<and>
         counts (cb (snd (Publish env topic ev p))) = counts_clear \<and>
         expiry (cb (snd (Publish env topic ev p))) =
           Some (Now env (clock p + 1) + Timeout))"
      by simp
  qed
next
  show "\<not> isl (Marshal ev) \<and> state (cb p) = StateHalfOpen \<and>
    Requests (counts (cb p)) < MaxRequests \<longrightarrow>
      (fst (Publish env topic ev p) = None \<and>
       ConsecutiveSuccesses (counts (cb p)) + 1 < MaxRequests \<longrightarrow>
         state (cb (snd (Publish env topic ev p))) = StateHalfOpen \<and>
         counts (cb (snd (Publish env topic ev p))) =
           counts_onSuccess (counts_onRequest (counts (cb p)))) \<and>
      (fst (Publish env topic ev p) = None \<and>
       MaxRequests \<le> ConsecutiveSuccesses (counts (cb p)) + 1 \<longrightarrow>
         state (cb (snd (Publish env topic ev p))) = StateClosed \<and>
         counts (cb (snd (Publish env topic ev p))) = counts_clear \<and>
         expiry (cb (snd (Publish env topic ev p))) =
           Some (Now env (clock p + 1) + Interval)) \<and>
      (fst (Publish env topic ev p) \<noteq> None \<longrightarrow>
         state (cb (snd (Publish env topic ev p))) = StateOpen \<and>
         counts (cb (snd (Publish env topic ev p))) = counts_clear \<and>
         expiry (cb (snd (Publish env topic ev p))) =
           Some (Now env (clock p + 1) + Timeout))"
  proof
    assume a: "\<not> isl (Marshal ev) \<and> state (cb p) = StateHalfOpen \<and>
      Requests (counts (cb p)) < MaxRequests"
    then have m: "Marshal ev = Inr (projr (Marshal ev))" by (intro serializable) simp
    from a have h: "state (cb p) = StateHalfOpen" "Requests (counts (cb p)) < MaxRequests"
      by simp_all
    note step = Publish_halfopen [OF m h, of env topic]
    from step(2) h(1)
    show "(fst (Publish env topic ev p) = None \<and>
       ConsecutiveSuccesses (counts (cb p)) + 1 < MaxRequests \<longrightarrow>
         state (cb (snd (Publish env topic ev p))) = StateHalfOpen \<and>
         counts (cb (snd (Publish env topic ev p))) =
           counts_onSuccess (counts_onRequest (counts (cb p)))) \<and>
      (fst (Publish env topic ev p) = None \<and>
       MaxRequests \<le> ConsecutiveSuccesses (counts (cb p)) + 1 \<longrightarrow>
         state (cb (snd (Publish env topic ev p))) = StateClosed \<and>
         counts (cb (snd (Publish env topic ev p))) = counts_clear \<and>
         expiry (cb (snd (Publish env topic ev p))) =
           Some (Now env (clock p + 1) + Interval)) \<and>
      (fst (Publish env topic ev p) \<noteq> None \<longrightarrow>
         state (cb (snd (Publish env topic ev p))) = StateOpen \<and>
         counts (cb (snd (Publish env topic ev p))) = counts_clear \<and>
         expiry (cb (snd (Publish env topic ev p))) =
           Some (Now env (clock p + 1) + Timeout))"
      by simp
  qed
next
  show "\<not> isl (Marshal e1) \<and> \<not> isl (Marshal e2) \<and> \<not> isl (Marshal e3) \<and>
    state (cb p) = StateOpen \<and> expiry (cb p) = Some e \<and> e < Now env (clock p) \<and>
    fst (Publish_each env topic [e1, e2, e3] p) = [None, None, None] \<longrightarrow>
      state (cb (snd (Publish_each env topic [e1, e2, e3] p))) = StateClosed \<and>
      counts (cb (snd (Publish_each env topic [e1, e2, e3] p))) = counts_clear"
  proof
    assume a: "\<not> isl (Marshal e1) \<and> \<not> isl (Marshal e2) \<and> \<not> isl (Marshal e3) \<and>
      state (cb p) = StateOpen \<and> expiry (cb p) = Some e \<and> e < Now env (clock p) \<and>
      fst (Publish_each env topic [e1, e2, e3] p) = [None, None, None]"
    let ?p1 = "snd (Publish env topic e1 p)"
    let ?p2 = "snd (Publish env topic e2 ?p1)"
    let ?p3 = "snd (Publish env topic e3 ?p2)"
    from a have m1: "Marshal e1 = Inr (projr (Marshal e1))"
      and m2: "Marshal e2 = Inr (projr (Marshal e2))"
      and m3: "Marshal e3 = Inr (projr (Marshal e3))" by (intro serializable, simp)+
    from a have o: "state (cb p) = StateOpen" "expiry (cb p) = Some e" "e < Now env (clock p)"
      by simp_all
    from a have r: "fst (Publish env topic e1 p) = None"
      "fst (Publish env topic e2 ?p1) = None" "fst (Publish env topic e3 ?p2) = None"
      by (simp_all add: case_prod_beta)
    have fin: "snd (Publish_each env topic [e1, e2, e3] p) = ?p3"
      by (simp add: case_prod_beta)
    have c1: "cb ?p1 = \<lparr>state = StateHalfOpen, generation = generation (cb p) + 1,
            counts = counts_onSuccess (counts_onRequest counts_clear), expiry = None\<rparr>"
      using Publish_cooled(2) [OF m1 o, of topic] r(1) by simp
    then have h1: "state (cb ?p1) = StateHalfOpen" "Requests (counts (cb ?p1)) < MaxRequests"
      by (simp_all add: counts_onSuccess_def counts_onRequest_def counts_clear_def
          MaxRequests_def)
    have c2: "cb ?p2 = (cb ?p1)\<lparr>counts :=
                 counts_onSuccess (counts_onRequest (counts (cb ?p1)))\<rparr>"
      using Publish_halfopen(2) [OF m2 h1, of env topic] r(2)
      by (simp add: c1 counts_onSuccess_def counts_onRequest_def counts_clear_def
          MaxRequests_def)
    then have h2: "state (cb ?p2) = StateHalfOpen" "Requests (counts (cb ?p2)) < MaxRequests"
      "MaxRequests \<le> ConsecutiveSuccesses (counts (cb ?p2)) + 1"
      by (simp_all add: c1 counts_onSuccess_def counts_onRequest_def counts_clear_def
          MaxRequests_def)
    have "state (cb ?p3) = StateClosed \<and> counts (cb ?p3) = counts_clear"
      using Publish_halfopen(2) [OF m3 h2(1,2), of env topic] r(3) h2(3) by simp
    then show "state (cb (snd (Publish_each env topic [e1, e2, e3] p))) = StateClosed \<and>
      counts (cb (snd (Publish_each env topic [e1, e2, e3] p))) = counts_clear"
      by (simp only: fin)
  qed
qed

theorem probes_after_cooldown_witness:
  "state (cb tripped_producer) = StateOpen \<and>
   30 * Second < Now recovering_env (clock tripped_producer) \<and>
   fst (Publish recovering_env ''payments'' example_event tripped_producer) = None \<and>
   state (cb (snd (Publish recovering_env ''payments'' example_event tripped_producer)))
     = StateHalfOpen \<and>
   fst (Publish recovering_env ''payments'' example_event probed_producer) = None \<and>
   state (cb (snd (Publish recovering_env ''payments'' example_event probed_producer)))
     = StateClosed \<and>
   counts (cb (snd (Publish recovering_env ''payments'' example_event probed_producer)))
     = counts_clear"
proof -
  have o: "\<not> isl (Marshal example_event) \<and> state (cb tripped_producer) = StateOpen \<and>
    expiry (cb tripped_producer) = Some (30 * Second) \<and>
    30 * Second < Now recovering_env (clock tripped_producer)"
    by (simp add: tripped_producer_eval recovering_env_eval Second_def example_event_def)
  have h: "\<not> isl (Marshal example_event) \<and> state (cb probed_producer) = StateHalfOpen \<and>
    Requests (counts (cb probed_producer)) < MaxRequests"
    by (simp add: probed_producer_eval MaxRequests_def example_event_def)
  have r: "fst (Publish recovering_env ''payments'' example_event tripped_producer) = None"
    "fst (Publish recovering_env ''payments'' example_event probed_producer) = None"
    "MaxRequests \<le> ConsecutiveSuccesses (counts (cb probed_producer)) + 1"
    by (simp_all add: first_probe third_probe probed_producer_eval MaxRequests_def)
  from probes_after_cooldown
         [of example_event tripped_producer "30 * Second" recovering_env "''payments''"]
       probes_after_cooldown
         [of example_event probed_producer _ recovering_env "''payments''"]
       o h r
  show ?thesis by simp
qed

theorem single_probe_leaves_breaker_half_open_counterexample:
  "state (cb tripped_producer) = StateOpen \<and>
   expiry (cb tripped_producer) = Some (30 * Second) \<and>
   Now recovering_env (clock tripped_producer) = 31 * Second \<and>
   fst (Publish recovering_env ''payments'' example_event tripped_producer) = None \<and>
   state (cb (snd (Publish recovering_env ''payments'' example_event tripped_producer)))
     = StateHalfOpen \<and>
   counts (cb (snd (Publish recovering_env ''payments'' example_event tripped_producer)))
     = \<lparr>Requests = 1, TotalSuccesses = 1, TotalFailures = 0,
        ConsecutiveSuccesses = 1, ConsecutiveFailures = 0\<rparr>"
  by (simp add: tripped_producer_eval first_probe recovering_env_eval)

section \<open>ConsumeClaim\<close>

text \<open>
  Claim C10. ConsumeClaim never returns an error, whatever the handler does and
  whatever the claim delivers; and it returns (nil) exactly when the claim's channel
  is closed or the session's context ends. Until then it goes on, also past messages
  the handler fails on.
\<close>

theorem ConsumeClaim_returns_nil:
  "fst (ConsumeClaim handler sel c) \<noteq> Some (Some err) \<and>
   (fst (ConsumeClaim handler sel c) = Some None) =
     (MessagesClosed \<in> set sel \<or> ContextDone \<in> set sel)"
  by (induction handler sel c rule: ConsumeClaim.induct)
     (auto simp: Let_def split: prod.splits option.splits)

text \<open>
  Claim C2. The claim has the committed offset of the partition stay at or below
  \<open>N - 1\<close> once the handler has failed on the message at offset \<open>N\<close>, so that the
  message is delivered again. The loop does not mark the failed message, logs it with
  its topic, partition and offset and goes on; but it then marks the next message the
  handler accepts, and that mark covers the failed one. Here the handler fails at
  offset 5 and accepts offset 6: the loop returns nil, one failure is logged, and the
  partition resumes at offset 7, past the message that was never processed.
\<close>

theorem ConsumeClaim_skips_failed_message:
  "fst (ConsumeClaim (fails_at 5)
          [Message (example_message 5), Message (example_message 6), MessagesClosed]
          example_consumer) = Some None \<and>
   offsets (snd (ConsumeClaim (fails_at 5)
          [Message (example_message 5), Message (example_message 6), MessagesClosed]
          example_consumer)) (''payments'', 0) = Some 7 \<and>
   c_logger (snd (ConsumeClaim (fails_at 5)
          [Message (example_message 5), Message (example_message 6), MessagesClosed]
          example_consumer)) =
     [(ErrorLevel, ''Failed to process message'',
       [zap_String ''topic'' ''payments'', zap_Int32 ''partition'' 0,
        zap_Int64 ''offset'' 5, zap_Error (LibError ''insufficient funds'')])]"
  by (simp add: fails_at_def example_message_def example_consumer_def Let_def
      c_tracer_Start_def c_span_End_def c_Error_def c_span_RecordError_def MarkMessage_def)

section \<open>Start\<close>

lemma supervise_step:
  "supervise (Returns joined err False # calls) c =
     supervise calls
       (make_ready
          (case err of
             Some e \<Rightarrow> c_Error ''Consumer error'' [zap_Error e]
                        (if joined then Setup (c\<lparr>consumes := consumes c + 1\<rparr>)
                         else c\<lparr>consumes := consumes c + 1\<rparr>)
           | None \<Rightarrow> (if joined then Setup (c\<lparr>consumes := consumes c + 1\<rparr>)
                      else c\<lparr>consumes := consumes c + 1\<rparr>)))"
  by (cases err; cases joined; simp add: Let_def)

lemma supervise_grows:
  "set (c_logger c) \<subseteq> set (c_logger (supervise calls c)) \<and>
   set (closed c) \<subseteq> set (closed (supervise calls c)) \<and>
   consumes c < consumes (supervise calls c)"
proof (induction calls arbitrary: c)
  case Nil
  then show ?case by simp
next
  case (Cons call calls)
  show ?case
  proof (cases call)
    case (Hangs joined)
    then show ?thesis by (auto simp: Setup_def Let_def)
  next
    case (Returns joined err cancelled)
    show ?thesis
    proof (cases cancelled)
      case True
      with Returns show ?thesis
        by (auto simp: Setup_def c_Error_def Let_def split: option.splits)
    next
      case False
      let ?c2 = "make_ready
          (case err of
             Some e \<Rightarrow> c_Error ''Consumer error'' [zap_Error e]
                        (if joined then Setup (c\<lparr>consumes := consumes c + 1\<rparr>)
                         else c\<lparr>consumes := consumes c + 1\<rparr>)
           | None \<Rightarrow> (if joined then Setup (c\<lparr>consumes := consumes c + 1\<rparr>)
                      else c\<lparr>consumes := consumes c + 1\<rparr>))"
      have pre: "set (c_logger c) \<subseteq> set (c_logger ?c2) \<and>
                 set (closed c) \<subseteq> set (closed ?c2) \<and> consumes c < consumes ?c2"
        by (auto simp: Setup_def c_Error_def make_ready_def split: option.splits)
      have eq: "supervise (call # calls) c = supervise calls ?c2"
      proof -
        from False have "cancelled = False" by simp
        then show ?thesis unfolding Returns by (simp only: supervise_step)
      qed
      from Cons.IH [of ?c2] pre show ?thesis
        unfolding eq by (meson order_trans less_trans)
    qed
  qed
qed

text \<open>
  Claim C4, as amended. Start never returns an error. A failure to join the consumer
  group, during the initial call as later, is logged by the supervising loop
  ("Consumer error"), which then calls \<open>Consume\<close> again; the same happens when a
  session that was joined ends without cancellation, and in that case Start has
  returned nil.
\<close>

theorem Start_never_returns_error:
  "fst (Start calls c) \<noteq> Some (Some err) \<and>
   (ErrorLevel, ''Consumer error'', [zap_Error e])
      \<in> set (c_logger (snd (Start (Returns False (Some e) False # calls) c))) \<and>
   consumes c + 2 \<le> consumes (snd (Start (Returns False (Some e) False # calls) c)) \<and>
   fst (Start (Returns True r False # calls) c) = Some None \<and>
   consumes c + 2 \<le> consumes (snd (Start (Returns True r False # calls) c))"
proof -
  let ?f = "make_ready (c_Error ''Consumer error'' [zap_Error e] (c\<lparr>consumes := consumes c + 1\<rparr>))"
  let ?j = "make_ready
          (case r of
             Some e \<Rightarrow> c_Error ''Consumer error'' [zap_Error e]
                        (Setup (c\<lparr>consumes := consumes c + 1\<rparr>))
           | None \<Rightarrow> Setup (c\<lparr>consumes := consumes c + 1\<rparr>))"
  have never: "fst (Start calls c) \<noteq> Some (Some err)"
    by (simp add: Start_def Let_def)
  have f: "supervise (Returns False (Some e) False # calls) c = supervise calls ?f"
    by (simp add: Let_def)
  have j: "supervise (Returns True r False # calls) c = supervise calls ?j"
    by (cases r; simp add: Let_def)
  have f_log: "(ErrorLevel, ''Consumer error'', [zap_Error e]) \<in> set (c_logger ?f)"
    by (simp add: make_ready_def c_Error_def)
  have f_cons: "consumes ?f = consumes c + 1"
    by (simp add: make_ready_def c_Error_def)
  have j_closed: "ready c \<in> set (closed ?j)"
    by (simp add: make_ready_def c_Error_def Setup_def split: option.splits)
  have j_cons: "consumes ?j = consumes c + 1"
    by (simp add: make_ready_def c_Error_def Setup_def split: option.splits)
  have logged: "(ErrorLevel, ''Consumer error'', [zap_Error e])
      \<in> set (c_logger (snd (Start (Returns False (Some e) False # calls) c)))"
    using supervise_grows [of ?f calls] f_log
    unfolding Start_def Let_def f by (auto simp: c_Info_def)
  have rejoin_f: "consumes c + 2 \<le> consumes (snd (Start (Returns False (Some e) False # calls) c))"
    using supervise_grows [of ?f calls] f_cons
    unfolding Start_def Let_def f by (auto simp: c_Info_def)
  have in_closed: "ready c \<in> set (closed (supervise calls ?j))"
    using supervise_grows [of ?j calls] j_closed by blast
  have started: "fst (Start (Returns True r False # calls) c) = Some None"
    using in_closed unfolding Start_def Let_def j by simp
  have rejoin_j: "consumes c + 2 \<le> consumes (snd (Start (Returns True r False # calls) c))"
    using supervise_grows [of ?j calls] j_cons in_closed
    unfolding Start_def Let_def j by (auto simp: c_Info_def)
  from never logged rejoin_f started rejoin_j show ?thesis by blast
qed

theorem Start_join_failure_counterexample:
  "fst (Start [Returns False (Some (LibError ''kafka: client has run out of available brokers'')) False]
          example_consumer) = None \<and>
   c_logger (snd (Start [Returns False (Some (LibError ''kafka: client has run out of available brokers'')) False]
          example_consumer)) =
     [(ErrorLevel, ''Consumer error'', [zap_Error (LibError ''kafka: client has run out of available brokers'')])] \<and>
   consumes (snd (Start [Returns False (Some (LibError ''kafka: client has run out of available brokers'')) False]
          example_consumer)) = 2"
  by (simp add: Start_def example_consumer_def Let_def c_Error_def make_ready_def)

end
